theory Spec2Isabelle
  imports Main
begin

section \<open>Python values and exceptions\<close>

text \<open>
  Values decoded from a JSON response body (\<^verbatim>\<open>response.json()\<close>) and the values the
  client keeps in its token attributes. \<open>JNull\<close> is Python's \<^verbatim>\<open>None\<close>; \<open>JObj\<close> lists the
  items of a \<^verbatim>\<open>dict\<close> (distinct keys). JSON numbers with a fraction are not modelled:
  no operation below reads one.
\<close>

datatype json =
    JNull
  | JBool bool
  | JInt int
  | JStr string
  | JArr "json list"
  | JObj "(string \<times> json) list"

text \<open>The positional arguments an exception was constructed with.\<close>

datatype arg = AInt int | AStr string

text \<open>
  Modelled from the spec: the error classes of \<^verbatim>\<open>tgtg_scanner/models/errors.py\<close>, which
  is not among the sources. The constructors \<open>TGTGConfigurationError\<close>,
  \<open>WebHookConfigurationError\<close>, \<open>TgtgAPIError\<close>, \<open>TgtgLoginError\<close> and \<open>TgtgPollingError\<close>
  are the class names the source raises; the spec's taxonomy lists configuration, login,
  polling and API errors as separate kinds, so they are separate constructors. The
  remaining constructors are Python's built-in exceptions. \<open>NonException\<close> stands for a
  \<^verbatim>\<open>BaseException\<close> that is not an \<^verbatim>\<open>Exception\<close> (\<^verbatim>\<open>KeyboardInterrupt\<close>, \<^verbatim>\<open>SystemExit\<close>):
  a handler \<^verbatim>\<open>except Exception\<close> does not catch it.
\<close>

datatype exn =
    KeyError string
  | TypeError
  | ValueError
  | OverflowError
  | AttributeError string
  | TGTGConfigurationError "arg list"
  | WebHookConfigurationError
  | TgtgAPIError "arg list"
  | TgtgLoginError "arg list"
  | TgtgPollingError "arg list"
  | OtherException string
  | NonException string

fun is_Exception :: "exn \<Rightarrow> bool" where
  "is_Exception (NonException _) = False"
| "is_Exception _ = True"

section \<open>Items (models/item.py)\<close>

text \<open>
  The attributes of an \<^verbatim>\<open>Item\<close> object. \<open>price\<close> (a float in the source) and \<open>pickupdate\<close>
  (a property that reads the clock) are kept as the strings \<^verbatim>\<open>str()\<close> gives for them;
  \<open>other_attrs\<close> holds the string forms of every further attribute \<^verbatim>\<open>hasattr\<close> finds on
  the object (\<^verbatim>\<open>interval_start\<close>, \<^verbatim>\<open>ATTRS\<close>, \<^verbatim>\<open>__class__\<close>, ...).
\<close>

record Item =
  item_id :: string
  items_available :: int
  display_name :: string
  price :: string
  currency :: string
  pickupdate :: string
  other_attrs :: "(string \<times> string) list"

definition ATTRS :: "string list" where
  "ATTRS = [''item_id'', ''items_available'', ''display_name'',
            ''price'', ''currency'', ''pickupdate'']"

section \<open>Notifiers (models/notifier.py, notifiers/__init__.py)\<close>

text \<open>
  A notifier: its \<^verbatim>\<open>enabled\<close> flag and the \<^verbatim>\<open>_send\<close> of its subclass. \<^verbatim>\<open>_send\<close> acts on
  the world outside the program (the mail server, the chat, the HTTP endpoint): given
  the item and the world it returns normally (\<open>None\<close>) or raises, and leaves a world.
  What a channel has received is read from the world its \<^verbatim>\<open>_send\<close> left.
\<close>

record 'w Notifier =
  enabled :: bool
  send_impl :: "Item \<Rightarrow> 'w \<Rightarrow> exn option \<times> 'w"

datatype channel = PushSafer | SMTP | IFTTT | WebHook | Telegram

text \<open>
  \<^verbatim>\<open>Notifier.send\<close>: the exception that leaves the call, and the world after it. A
  disabled notifier does not call \<^verbatim>\<open>_send\<close>; an \<^verbatim>\<open>Exception\<close> of \<^verbatim>\<open>_send\<close> is caught and
  logged.
\<close>

definition Notifier_send :: "'w Notifier \<Rightarrow> Item \<Rightarrow> 'w \<Rightarrow> exn option \<times> 'w" where
  "Notifier_send n it w =
     (if enabled n then
        (case send_impl n it w of
           (None, w') \<Rightarrow> (None, w')
         | (Some e, w') \<Rightarrow> if is_Exception e then (None, w') else (Some e, w'))
      else (None, w))"

record 'w Notifiers =
  push_safer :: "'w Notifier"
  smtp :: "'w Notifier"
  ifttt :: "'w Notifier"
  webhook :: "'w Notifier"
  telegram :: "'w Notifier"

text \<open>The five calls of \<^verbatim>\<open>Notifiers.send\<close>, in the order of the source.\<close>

definition channels :: "'w Notifiers \<Rightarrow> (channel \<times> 'w Notifier) list" where
  "channels ns = [(PushSafer, push_safer ns), (SMTP, smtp ns), (IFTTT, ifttt ns),
                  (WebHook, webhook ns), (Telegram, telegram ns)]"

text \<open>
  One \<^verbatim>\<open>send\<close> after the other, each on the world the one before left; an exception
  that leaves one of them ends the sequence.
\<close>

fun send_each :: "(channel \<times> 'w Notifier) list \<Rightarrow> Item \<Rightarrow> 'w \<Rightarrow> exn option \<times> 'w" where
  "send_each [] it w = (None, w)"
| "send_each ((c, n) # rest) it w =
     (case Notifier_send n it w of
        (Some e, w') \<Rightarrow> (Some e, w')
      | (None, w') \<Rightarrow> send_each rest it w')"

definition Notifiers_send :: "'w Notifiers \<Rightarrow> Item \<Rightarrow> 'w \<Rightarrow> exn option \<times> 'w" where
  "Notifiers_send ns it w = send_each (channels ns) it w"

section \<open>The scanner (scanner.py)\<close>

text \<open>
  The scanner's state: the \<^verbatim>\<open>amounts\<close> dictionary, the notifiers (absent when the
  scanner was built with \<^verbatim>\<open>notifiers=False\<close>), the two metrics calls of
  \<^verbatim>\<open>_check_item\<close>, each returning normally or raising, and the world outside that the
  notifiers send to.
\<close>

record 'w Scanner =
  amounts :: "string \<rightharpoonup> int"
  notifiers :: "'w Notifiers option"
  metrics_send_notifications :: "Item \<Rightarrow> exn option"
  metrics_item_count :: "Item \<Rightarrow> exn option"
  outside :: 'w

definition Scanner_send_messages :: "'w Scanner \<Rightarrow> Item \<Rightarrow> exn option \<times> 'w" where
  "Scanner_send_messages sc it =
     (case notifiers sc of
        None \<Rightarrow> (Some (AttributeError ''notifiers''), outside sc)
      | Some ns \<Rightarrow> Notifiers_send ns it (outside sc))"

text \<open>
  The \<^verbatim>\<open>try\<close> suite of \<^verbatim>\<open>_check_item\<close>: the exception it ends with, the items
  \<^verbatim>\<open>_send_messages\<close> was called with, and the world outside after it.
\<close>

definition check_item_try :: "'w Scanner \<Rightarrow> Item \<Rightarrow> exn option \<times> Item list \<times> 'w" where
  "check_item_try sc it =
     (case amounts sc (item_id it) of
        None \<Rightarrow> (Some (KeyError (item_id it)), [], outside sc)
      | Some prev \<Rightarrow>
          if prev = 0 \<and> items_available it > prev then
            (case Scanner_send_messages sc it of
               (Some e, w) \<Rightarrow> (Some e, [it], w)
             | (None, w) \<Rightarrow>
                 (case metrics_send_notifications sc it of
                    Some e \<Rightarrow> (Some e, [it], w)
                  | None \<Rightarrow> (metrics_item_count sc it, [it], w)))
          else (metrics_item_count sc it, [], outside sc))"

text \<open>
  The \<^verbatim>\<open>except Exception\<close> clause: the dictionary after it and the exception still
  pending.
\<close>

definition check_item_except ::
  "'w Scanner \<Rightarrow> Item \<Rightarrow> exn option \<Rightarrow> (string \<rightharpoonup> int) \<times> exn option" where
  "check_item_except sc it exc =
     (case exc of
        None \<Rightarrow> (amounts sc, None)
      | Some e \<Rightarrow>
          if is_Exception e
          then ((amounts sc)(item_id it \<mapsto> items_available it), None)
          else (amounts sc, Some e))"

text \<open>
  \<^verbatim>\<open>Scanner._check_item\<close>, with its \<^verbatim>\<open>finally\<close> clause: the exception that leaves the
  call, the scanner after it (with the world outside as the notifiers left it) and the
  items dispatched.
\<close>

definition Scanner_check_item ::
  "'w Scanner \<Rightarrow> Item \<Rightarrow> exn option \<times> 'w Scanner \<times> Item list" where
  "Scanner_check_item sc it =
     (case check_item_try sc it of
        (exc, called, w) \<Rightarrow>
          (case check_item_except sc it exc of
             (am, pending) \<Rightarrow>
               (case am (item_id it) of
                  None \<Rightarrow>
                    (Some (KeyError (item_id it)), sc\<lparr>amounts := am, outside := w\<rparr>, called)
                | Some v \<Rightarrow>
                    if v \<noteq> items_available it
                    then (pending,
                          sc\<lparr>amounts := am(item_id it \<mapsto> items_available it), outside := w\<rparr>,
                          called)
                    else (pending, sc\<lparr>amounts := am, outside := w\<rparr>, called))))"

definition raised :: "exn option \<times> 'w Scanner \<times> Item list \<Rightarrow> exn option" where
  "raised r = fst r"

definition scanner_after :: "exn option \<times> 'w Scanner \<times> Item list \<Rightarrow> 'w Scanner" where
  "scanner_after r = fst (snd r)"

definition dispatched :: "exn option \<times> 'w Scanner \<times> Item list \<Rightarrow> Item list" where
  "dispatched r = snd (snd r)"




text \<open>
  \<^verbatim>\<open>Scanner._get_favorites\<close>. The call \<^verbatim>\<open>self.tgtg_client.get_items(favorites_only=True,
  page_size=page_size, page=page)\<close> is a parameter: given the state of the world (the
  client and the provider), the page size and the page number, it returns a list of
  items or raises, and leaves a new state. The loop has no bound on the number of full
  pages, so it is a partial function: \<open>None\<close> is a loop that never returns. Next to the
  variables of the source the loop carries the list of requests it has issued, each a
  page size and a page number. An exception the handler catches is logged and counted,
  by \<open>error_count\<close> and by the metric \<^verbatim>\<open>get_favorites_errors\<close> alike.
\<close>

definition page_size :: nat where "page_size = 100"

partial_function (option) favorites_loop ::
  "('w \<Rightarrow> nat \<Rightarrow> nat \<Rightarrow> (exn + 'i list) \<times> 'w) \<Rightarrow> 'w \<Rightarrow> 'i list \<Rightarrow> nat \<Rightarrow> nat
     \<Rightarrow> (nat \<times> nat) list \<Rightarrow> ((exn + 'i list) \<times> (nat \<times> nat) list \<times> nat \<times> 'w) option" where
  "favorites_loop get_items w items page error_count reqs =
     (if error_count < 5 then
        (case get_items w page_size page of
           (Inr new_items, w') \<Rightarrow>
             if length new_items < page_size
             then Some (Inr (items @ new_items), reqs @ [(page_size, page)], error_count, w')
             else favorites_loop get_items w' (items @ new_items) (page + 1) error_count
                    (reqs @ [(page_size, page)])
         | (Inl e, w') \<Rightarrow>
             if is_Exception e
             then favorites_loop get_items w' items page (error_count + 1)
                    (reqs @ [(page_size, page)])
             else Some (Inl e, reqs @ [(page_size, page)], error_count, w'))
      else Some (Inr items, reqs, error_count, w))"

definition Scanner_get_favorites ::
  "('w \<Rightarrow> nat \<Rightarrow> nat \<Rightarrow> (exn + 'i list) \<times> 'w) \<Rightarrow> 'w
     \<Rightarrow> ((exn + 'i list) \<times> (nat \<times> nat) list \<times> nat \<times> 'w) option" where
  "Scanner_get_favorites get_items w = favorites_loop get_items w [] 1 0 []"

text \<open>
  What the provider does, for the statements below: from the world \<open>w\<close> the requests
  for the pages \<open>p\<close>, \<open>p + 1\<close>, ... are answered with the given lists, one after the
  other, and leave the world \<open>w'\<close>.
\<close>

fun answers :: "('w \<Rightarrow> nat \<Rightarrow> nat \<Rightarrow> (exn + 'i list) \<times> 'w) \<Rightarrow> 'w \<Rightarrow> nat \<Rightarrow> 'i list list \<Rightarrow> 'w \<Rightarrow> bool" where
  "answers g w p [] w' = (w' = w)"
| "answers g w p (x # xs) w' =
     (case g w page_size p of
        (Inr its, w1) \<Rightarrow> its = x \<and> answers g w1 (p + 1) xs w'
      | (Inl e, w1) \<Rightarrow> False)"

text \<open>
  From the world \<open>w\<close>, \<open>n\<close> requests for the page \<open>p\<close> in a row each raise an
  \<^verbatim>\<open>Exception\<close>, and leave the world \<open>w'\<close>.
\<close>

fun raises :: "('w \<Rightarrow> nat \<Rightarrow> nat \<Rightarrow> (exn + 'i list) \<times> 'w) \<Rightarrow> 'w \<Rightarrow> nat \<Rightarrow> nat \<Rightarrow> 'w \<Rightarrow> bool" where
  "raises g w p 0 w' = (w' = w)"
| "raises g w p (Suc n) w' =
     (case g w page_size p of
        (Inl e, w1) \<Rightarrow> is_Exception e \<and> raises g w1 p n w'
      | (Inr its, w1) \<Rightarrow> False)"

section \<open>The API client (tgtg.py)\<close>

subsection \<open>Python operations the client uses\<close>

text \<open>Truth value of a Python object, as \<^verbatim>\<open>and\<close>, \<^verbatim>\<open>or\<close>, \<^verbatim>\<open>not\<close> and \<^verbatim>\<open>bool()\<close> take it.\<close>

fun truthy :: "json \<Rightarrow> bool" where
  "truthy JNull = False"
| "truthy (JBool b) = b"
| "truthy (JInt i) = (i \<noteq> 0)"
| "truthy (JStr s) = (s \<noteq> [])"
| "truthy (JArr xs) = (xs \<noteq> [])"
| "truthy (JObj kvs) = (kvs \<noteq> [])"

text \<open>Subscription with a string key, \<^verbatim>\<open>obj[key]\<close>.\<close>

fun getitem :: "json \<Rightarrow> string \<Rightarrow> exn + json" where
  "getitem (JObj kvs) k = (case map_of kvs k of None \<Rightarrow> Inl (KeyError k) | Some v \<Rightarrow> Inr v)"
| "getitem _ k = Inl TypeError"

text \<open>\<^verbatim>\<open>str()\<close> of an integer: its decimal digits, with a minus sign when negative.\<close>

definition digit_char :: "nat \<Rightarrow> char" where
  "digit_char d = ''0123456789'' ! d"

function str_nat :: "nat \<Rightarrow> string" where
  "str_nat n = (if n < 10 then [digit_char n] else str_nat (n div 10) @ [digit_char (n mod 10)])"
  by pat_completeness auto
termination
  by (relation "measure (\<lambda>n. n)") auto

definition str_int :: "int \<Rightarrow> string" where
  "str_int i = (if i < 0 then CHR ''-'' # str_nat (nat (- i)) else str_nat (nat i))"

text \<open>
  The attribute \<^verbatim>\<open>seconds\<close> of a \<^verbatim>\<open>timedelta\<close> of \<open>d\<close> microseconds: a \<^verbatim>\<open>timedelta\<close> is kept
  as days, seconds (from 0 to 86399) and microseconds, and \<^verbatim>\<open>seconds\<close> is the second of
  the three.
\<close>

definition timedelta_seconds :: "int \<Rightarrow> int" where
  "timedelta_seconds d = (d mod 86400000000) div 1000000"

subsection \<open>Requests and the world\<close>

record request =
  endpoint :: string
  payload :: json

text \<open>
  A response: \<open>json_body\<close> is what \<^verbatim>\<open>response.json()\<close> returns, \<open>None\<close> when the content is
  not JSON and the call raises (a \<^verbatim>\<open>ValueError\<close>).
\<close>

record response =
  status_code :: int
  content :: string
  json_body :: "json option"

text \<open>
  The world the client runs in: the clock (\<^verbatim>\<open>datetime.datetime.now()\<close>, in microseconds),
  the provider, the requests posted so far and the arguments of the calls of
  \<^verbatim>\<open>time.sleep\<close> so far. The provider gives, for the requests posted so far with the
  current one last, the response to the current one, or the exception the transport
  raises. A request takes no time; sleeping moves the clock.
\<close>

record world =
  now :: int
  net :: "request list \<Rightarrow> exn + response"
  sent :: "request list"
  slept :: "int list"

text \<open>
  \<^verbatim>\<open>time.sleep\<close> with an integer argument: a negative wait raises \<^verbatim>\<open>ValueError\<close>, and a
  wait whose nanoseconds do not fit a signed 64-bit integer (more than 9223372036
  seconds) raises \<^verbatim>\<open>OverflowError\<close>; otherwise the clock moves on by the wait.
\<close>

definition sleep :: "world \<Rightarrow> int \<Rightarrow> exn + world" where
  "sleep w t =
     (if t < 0 then Inl ValueError
      else if 9223372036 < t then Inl OverflowError
      else Inr (w\<lparr>now := now w + t * 1000000, slept := slept w @ [t]\<rparr>))"

text \<open>The waits \<^verbatim>\<open>time.sleep\<close> accepts.\<close>

definition can_sleep :: "int \<Rightarrow> bool" where
  "can_sleep t = (0 \<le> t \<and> t \<le> 9223372036)"

subsection \<open>The client\<close>

definition BASE_URL :: string where
  "BASE_URL = ''https://apptoogoodtogo.com/api/''"

definition AUTH_BY_EMAIL_ENDPOINT :: string where
  "AUTH_BY_EMAIL_ENDPOINT = ''auth/v3/authByEmail''"

definition AUTH_POLLING_ENDPOINT :: string where
  "AUTH_POLLING_ENDPOINT = ''auth/v3/authByRequestPollingId''"

definition REFRESH_ENDPOINT :: string where
  "REFRESH_ENDPOINT = ''auth/v3/token/refresh''"

definition USER_AGENTS :: "string list" where
  "USER_AGENTS =
     [''TGTG/21.12.1 Dalvik/2.1.0 (Linux; U; Android 6.0.1; Nexus 5 Build/M4B30Z)'',
      ''TGTG/21.12.1 Dalvik/2.1.0 (Linux; U; Android 7.0; SM-G935F Build/NRD90M)'',
      ''TGTG/21.12.1 Dalvik/2.1.0 (Linux; Android 6.0.1; SM-G920V Build/MMB29K)'']"

definition DEFAULT_ACCESS_TOKEN_LIFETIME :: int where
  "DEFAULT_ACCESS_TOKEN_LIFETIME = 3600 * 4"

definition DEFAULT_MAX_POLLING_TRIES :: int where
  "DEFAULT_MAX_POLLING_TRIES = 24"

definition DEFAULT_POLLING_WAIT_TIME :: int where
  "DEFAULT_POLLING_WAIT_TIME = 5"

text \<open>
  The attributes of a \<^verbatim>\<open>TgtgClient\<close>. The three credentials hold what the configuration
  or a response gave: any value, \<open>JNull\<close> for \<^verbatim>\<open>None\<close>. \<open>last_time_token_refreshed\<close> is a
  reading of the clock or \<^verbatim>\<open>None\<close>. The proxies and the \<^verbatim>\<open>requests\<close> session are part of
  the world.
\<close>

record TgtgClient =
  base_url :: string
  email :: "string option"
  access_token :: json
  refresh_token :: json
  user_id :: json
  last_time_token_refreshed :: "int option"
  access_token_lifetime :: int
  max_polling_tries :: int
  polling_wait_time :: int
  device_type :: string
  user_agent :: string
  language :: string
  timeout :: "int option"

text \<open>
  \<^verbatim>\<open>TgtgClient.__init__\<close> with the arguments the scanner passes and the defaults for the
  others; \<open>pick\<close> is the outcome of \<^verbatim>\<open>random.choice\<close>. The body has no \<^verbatim>\<open>raise\<close>: the
  result is always an object.
\<close>

definition TgtgClient_init ::
  "string option \<Rightarrow> int option \<Rightarrow> int \<Rightarrow> int \<Rightarrow> int \<Rightarrow> json \<Rightarrow> json \<Rightarrow> json \<Rightarrow> nat
     \<Rightarrow> exn + TgtgClient" where
  "TgtgClient_init email_arg timeout_arg lifetime tries wait access refresh uid pick =
     Inr \<lparr>base_url = BASE_URL, email = email_arg, access_token = access,
          refresh_token = refresh, user_id = uid, last_time_token_refreshed = None,
          access_token_lifetime = lifetime, max_polling_tries = tries,
          polling_wait_time = wait, device_type = ''ANDROID'',
          user_agent = USER_AGENTS ! (pick mod 3), language = ''en-UK'',
          timeout = timeout_arg\<rparr>"

definition already_logged :: "TgtgClient \<Rightarrow> bool" where
  "already_logged c =
     (truthy (access_token c) \<and> truthy (refresh_token c) \<and> truthy (user_id c))"

definition email_json :: "TgtgClient \<Rightarrow> json" where
  "email_json c = (case email c of None \<Rightarrow> JNull | Some s \<Rightarrow> JStr s)"

text \<open>
  \<^verbatim>\<open>TgtgClient._request\<close>: the request is posted and the provider answers. The URL is
  kept as the path of the endpoint under the base URL.
\<close>

definition TgtgClient_request :: "world \<Rightarrow> string \<Rightarrow> json \<Rightarrow> (exn + response) \<times> world" where
  "TgtgClient_request w path body =
     (let posted = sent w @ [\<lparr>endpoint = path, payload = body\<rparr>]
      in (net w posted, w\<lparr>sent := posted\<rparr>))"

text \<open>The assignments of \<^verbatim>\<open>_refresh_token\<close> after a response with status OK.\<close>

definition store_refreshed ::
  "TgtgClient \<Rightarrow> world \<Rightarrow> response \<Rightarrow> (exn + unit) \<times> TgtgClient \<times> world" where
  "store_refreshed c w resp =
     (case json_body resp of
        None \<Rightarrow> (Inl ValueError, c, w)
      | Some j \<Rightarrow>
          (case getitem j ''access_token'' of
             Inl e \<Rightarrow> (Inl e, c, w)
           | Inr a \<Rightarrow>
               (case getitem j ''refresh_token'' of
                  Inl e \<Rightarrow> (Inl e, c\<lparr>access_token := a\<rparr>, w)
                | Inr r \<Rightarrow>
                    (Inr (), c\<lparr>access_token := a, refresh_token := r,
                               last_time_token_refreshed := Some (now w)\<rparr>, w))))"

definition TgtgClient_refresh_token ::
  "TgtgClient \<Rightarrow> world \<Rightarrow> (exn + unit) \<times> TgtgClient \<times> world" where
  "TgtgClient_refresh_token c w =
     (if (case last_time_token_refreshed c of
            None \<Rightarrow> False
          | Some t \<Rightarrow> timedelta_seconds (now w - t) \<le> access_token_lifetime c)
      then (Inr (), c, w)
      else
        (case TgtgClient_request w REFRESH_ENDPOINT
                (JObj [(''refresh_token'', refresh_token c)]) of
           (Inl e, w1) \<Rightarrow> (Inl e, c, w1)
         | (Inr resp, w1) \<Rightarrow>
             if status_code resp = 200 then store_refreshed c w1 resp
             else (Inl (TgtgAPIError [AInt (status_code resp), AStr (content resp)]), c, w1)))"

text \<open>The assignments of \<^verbatim>\<open>start_polling\<close> after a response with status OK.\<close>

definition store_login ::
  "TgtgClient \<Rightarrow> world \<Rightarrow> response \<Rightarrow> (exn + unit) \<times> TgtgClient \<times> world" where
  "store_login c w resp =
     (case json_body resp of
        None \<Rightarrow> (Inl ValueError, c, w)
      | Some j \<Rightarrow>
          (case getitem j ''access_token'' of
             Inl e \<Rightarrow> (Inl e, c, w)
           | Inr a \<Rightarrow>
               (case getitem j ''refresh_token'' of
                  Inl e \<Rightarrow> (Inl e, c\<lparr>access_token := a\<rparr>, w)
                | Inr r \<Rightarrow>
                    (let c1 = c\<lparr>access_token := a, refresh_token := r,
                                 last_time_token_refreshed := Some (now w)\<rparr>
                     in case getitem j ''startup_data'' of
                          Inl e \<Rightarrow> (Inl e, c1, w)
                        | Inr sd \<Rightarrow>
                            (case getitem sd ''user'' of
                               Inl e \<Rightarrow> (Inl e, c1, w)
                             | Inr u \<Rightarrow>
                                 (case getitem u ''user_id'' of
                                    Inl e \<Rightarrow> (Inl e, c1, w)
                                  | Inr uid \<Rightarrow> (Inr (), c1\<lparr>user_id := uid\<rparr>, w)))))))"

definition polling_request :: "TgtgClient \<Rightarrow> json \<Rightarrow> request" where
  "polling_request c polling_id =
     \<lparr>endpoint = AUTH_POLLING_ENDPOINT,
      payload = JObj [(''device_type'', JStr (device_type c)), (''email'', email_json c),
                      (''request_polling_id'', polling_id)]\<rparr>"

definition polling_timeout_message :: "TgtgClient \<Rightarrow> string" where
  "polling_timeout_message c =
     ''Max retries ('' @ str_int (max_polling_tries c * polling_wait_time c)
       @ '' seconds) reached. Try again.''"

text \<open>
  The loop of \<^verbatim>\<open>start_polling\<close>, by the number of iterations \<^verbatim>\<open>range\<close> has left; after
  the last one the statement behind the loop raises.
\<close>

fun polling_loop ::
  "nat \<Rightarrow> TgtgClient \<Rightarrow> world \<Rightarrow> json \<Rightarrow> (exn + unit) \<times> TgtgClient \<times> world" where
  "polling_loop 0 c w polling_id =
     (Inl (TgtgPollingError [AStr (polling_timeout_message c)]), c, w)"
| "polling_loop (Suc n) c w polling_id =
     (case TgtgClient_request w (endpoint (polling_request c polling_id))
             (payload (polling_request c polling_id)) of
        (Inl e, w1) \<Rightarrow> (Inl e, c, w1)
      | (Inr resp, w1) \<Rightarrow>
          if status_code resp = 202 then
            (case sleep w1 (polling_wait_time c) of
               Inl e \<Rightarrow> (Inl e, c, w1)
             | Inr w2 \<Rightarrow> polling_loop n c w2 polling_id)
          else if status_code resp = 200 then store_login c w1 resp
          else if status_code resp = 429 then
            (Inl (TgtgAPIError [AStr ''429 - Too many requests. Try again later.'']), c, w1)
          else (Inl (TgtgLoginError [AInt (status_code resp), AStr (content resp)]), c, w1))"

definition TgtgClient_start_polling ::
  "TgtgClient \<Rightarrow> world \<Rightarrow> json \<Rightarrow> (exn + unit) \<times> TgtgClient \<times> world" where
  "TgtgClient_start_polling c w polling_id =
     polling_loop (nat (max_polling_tries c)) c w polling_id"

definition terms_message :: "TgtgClient \<Rightarrow> string" where
  "terms_message c =
     ''This email '' @ (case email c of None \<Rightarrow> ''None'' | Some s \<Rightarrow> s)
       @ '' is not linked to a tgtg account. Please signup with this email first.''"

text \<open>The branch of \<^verbatim>\<open>login\<close> for a client that is not logged in yet.\<close>

definition login_by_email :: "TgtgClient \<Rightarrow> world \<Rightarrow> (exn + unit) \<times> TgtgClient \<times> world" where
  "login_by_email c w =
     (case TgtgClient_request w AUTH_BY_EMAIL_ENDPOINT
             (JObj [(''device_type'', JStr (device_type c)), (''email'', email_json c)]) of
        (Inl e, w1) \<Rightarrow> (Inl e, c, w1)
      | (Inr resp, w1) \<Rightarrow>
          if status_code resp = 200 then
            (case json_body resp of
               None \<Rightarrow> (Inl ValueError, c, w1)
             | Some j \<Rightarrow>
                 (case getitem j ''state'' of
                    Inl e \<Rightarrow> (Inl e, c, w1)
                  | Inr st \<Rightarrow>
                      if st = JStr ''TERMS'' then
                        (Inl (TgtgPollingError [AStr (terms_message c)]), c, w1)
                      else if st = JStr ''WAIT'' then
                        (case getitem j ''polling_id'' of
                           Inl e \<Rightarrow> (Inl e, c, w1)
                         | Inr polling_id \<Rightarrow> TgtgClient_start_polling c w1 polling_id)
                      else
                        (Inl (TgtgLoginError [AInt (status_code resp), AStr (content resp)]),
                         c, w1)))
          else if status_code resp = 429 then
            (Inl (TgtgAPIError [AStr ''429 - Too many requests. Try again later.'']), c, w1)
          else (Inl (TgtgLoginError [AInt (status_code resp), AStr (content resp)]), c, w1))"

definition configuration_message :: string where
  "configuration_message =
     ''You must provide at least email or access_token, refresh_token and user_id''"

definition TgtgClient_login :: "TgtgClient \<Rightarrow> world \<Rightarrow> (exn + unit) \<times> TgtgClient \<times> world" where
  "TgtgClient_login c w =
     (if \<not> (truthy (email_json c)
             \<or> truthy (access_token c) \<and> truthy (refresh_token c) \<and> truthy (user_id c))
      then (Inl (TGTGConfigurationError [AStr configuration_message]), c, w)
      else if already_logged c then TgtgClient_refresh_token c w
      else login_by_email c w)"

subsection \<open>Statements about the provider\<close>

text \<open>
  For the statements about polling: the first \<open>k\<close> polling requests posted from the world
  \<open>w\<close> are each answered with status 202 (accepted, confirmation still pending).
\<close>

fun pending_polls :: "world \<Rightarrow> request \<Rightarrow> nat \<Rightarrow> bool" where
  "pending_polls w req 0 = True"
| "pending_polls w req (Suc k) =
     (pending_polls w req k \<and>
      (case net w (sent w @ replicate (Suc k) req) of
         Inl e \<Rightarrow> False
       | Inr resp \<Rightarrow> status_code resp = 202))"

text \<open>
  The world after \<open>k\<close> polling requests that were answered "pending": the requests are
  posted, and each was followed by a sleep of \<open>polling_wait_time\<close> seconds.
\<close>

definition after_polls :: "world \<Rightarrow> TgtgClient \<Rightarrow> json \<Rightarrow> nat \<Rightarrow> world" where
  "after_polls w c polling_id k =
     w\<lparr>now := now w + int k * (polling_wait_time c * 1000000),
       sent := sent w @ replicate k (polling_request c polling_id),
       slept := slept w @ replicate k (polling_wait_time c)\<rparr>"

text \<open>The requests \<^verbatim>\<open>login\<close> and \<^verbatim>\<open>_refresh_token\<close> post.\<close>

definition auth_request :: "TgtgClient \<Rightarrow> request" where
  "auth_request c =
     \<lparr>endpoint = AUTH_BY_EMAIL_ENDPOINT,
      payload = JObj [(''device_type'', JStr (device_type c)), (''email'', email_json c)]\<rparr>"

definition refresh_request :: "TgtgClient \<Rightarrow> request" where
  "refresh_request c =
     \<lparr>endpoint = REFRESH_ENDPOINT, payload = JObj [(''refresh_token'', refresh_token c)]\<rparr>"

text \<open>The call ended with a \<^verbatim>\<open>TgtgLoginError\<close>.\<close>

definition raises_LoginError :: "(exn + unit) \<times> TgtgClient \<times> world \<Rightarrow> bool" where
  "raises_LoginError r = (case fst r of Inl (TgtgLoginError args) \<Rightarrow> True | _ \<Rightarrow> False)"

section \<open>The webhook notifier (notifiers/webhook.py)\<close>

text \<open>
  The pattern of \<^verbatim>\<open>_init\<close> and \<^verbatim>\<open>_send\<close>, \<^verbatim>\<open>\${{([a-zA-Z0-9_]+)}}\<close>: a dollar sign and two
  opening braces, one or more characters of the class, two closing braces.
\<close>

definition word_chars :: string where
  "word_chars = ''abcdefghijklmnopqrstuvwxyz'' @ ''ABCDEFGHIJKLMNOPQRSTUVWXYZ''
                  @ ''0123456789'' @ ''_''"

definition is_word_char :: "char \<Rightarrow> bool" where
  "is_word_char c = (c \<in> set word_chars)"

text \<open>
  A match of the pattern at the start of a string: the name (group 1) and the rest of
  the string behind the match. The class takes as many characters as it can; a shorter
  run is followed by a character of the class, never by a closing brace, so there is no
  other way to match.
\<close>

definition match_here :: "string \<Rightarrow> (string \<times> string) option" where
  "match_here s =
     (if take 3 s = ''${{'' then
        (let w = takeWhile is_word_char (drop 3 s);
             r = dropWhile is_word_char (drop 3 s)
         in if w \<noteq> [] \<and> take 2 r = ''}}'' then Some (w, drop 2 r) else None)
      else None)"

text \<open>
  \<^verbatim>\<open>re.finditer\<close>: the names of the matches, from left to right, without overlap.
\<close>

function finditer :: "string \<Rightarrow> string list" where
  "finditer [] = []"
| "finditer (c # cs) =
     (case match_here (c # cs) of
        Some (w, r) \<Rightarrow> w # finditer r
      | None \<Rightarrow> finditer cs)"
  by pat_completeness auto
termination
proof (relation "measure length")
  fix c cs x w r
  assume "match_here (c # cs) = Some x" and "(w, r) = x"
  then have "r = drop 2 (dropWhile is_word_char (drop 3 (c # cs)))"
    by (auto simp: match_here_def Let_def split: if_splits)
  moreover have "length (dropWhile is_word_char (drop 3 (c # cs))) \<le> length (drop 3 (c # cs))"
    by (rule length_dropWhile_le)
  ultimately show "(r, c # cs) \<in> measure length" by simp
qed simp_all

text \<open>
  \<^verbatim>\<open>str.replace(old, new)\<close> for a non-empty \<open>old\<close>: every occurrence, from left to right,
  without overlap.
\<close>

function str_replace :: "string \<Rightarrow> string \<Rightarrow> string \<Rightarrow> string" where
  "str_replace old new [] = []"
| "str_replace old new (c # cs) =
     (if old \<noteq> [] \<and> take (length old) (c # cs) = old
      then new @ str_replace old new (drop (length old) (c # cs))
      else c # str_replace old new cs)"
  by pat_completeness auto
termination
  by (relation "measure (\<lambda>(old, new, s). length s)") auto

text \<open>
  \<^verbatim>\<open>str(getattr(item, name))\<close> when \<^verbatim>\<open>hasattr(item, name)\<close>, and \<open>None\<close> when not.
\<close>

definition Item_getattr :: "Item \<Rightarrow> string \<Rightarrow> string option" where
  "Item_getattr it name =
     (if name = ''item_id'' then Some (item_id it)
      else if name = ''items_available'' then Some (str_int (items_available it))
      else if name = ''display_name'' then Some (display_name it)
      else if name = ''price'' then Some (price it)
      else if name = ''currency'' then Some (currency it)
      else if name = ''pickupdate'' then Some (pickupdate it)
      else map_of (other_attrs it) name)"

text \<open>The text of a match (group 0) with the given name.\<close>

definition placeholder :: "string \<Rightarrow> string" where
  "placeholder name = ''${{'' @ name @ ''}}''"

text \<open>
  The loop of \<^verbatim>\<open>_send\<close> over a template: the matches are those of the template as
  configured; each replacement is made in the text as it is by then.
\<close>

definition render :: "Item \<Rightarrow> string \<Rightarrow> string" where
  "render it template =
     foldl (\<lambda>text name. case Item_getattr it name of
                           Some v \<Rightarrow> str_replace (placeholder name) v text
                         | None \<Rightarrow> text)
       template (finditer template)"

text \<open>
  \<^verbatim>\<open>WebHookConfig\<close>; the fields \<^verbatim>\<open>enabled\<close>, \<^verbatim>\<open>method\<close>, \<^verbatim>\<open>type\<close> and \<^verbatim>\<open>timeout\<close> carry a prime.
  \<open>None\<close> is a setting that was not configured.
\<close>

record WebHookConfig =
  enabled' :: bool
  url :: "string option"
  method' :: "string option"
  body :: "string option"
  type' :: string
  timeout' :: int

text \<open>The check both loops of \<^verbatim>\<open>_init\<close> make: some match has a name outside \<^verbatim>\<open>Item.ATTRS\<close>.\<close>

definition unknown_placeholder :: "string \<Rightarrow> bool" where
  "unknown_placeholder template = list_ex (\<lambda>name. name \<notin> set ATTRS) (finditer template)"

text \<open>
  \<^verbatim>\<open>WebHook._init\<close>. \<^verbatim>\<open>re.finditer\<close> raises a \<^verbatim>\<open>TypeError\<close> when the body is \<^verbatim>\<open>None\<close>.
\<close>

definition WebHook_init :: "WebHookConfig \<Rightarrow> exn + unit" where
  "WebHook_init cfg =
     (if method' cfg = None \<or> method' cfg = Some [] \<or> url cfg = None \<or> url cfg = Some []
      then Inl WebHookConfigurationError
      else
        (case body cfg of
           None \<Rightarrow> Inl TypeError
         | Some b \<Rightarrow>
             if unknown_placeholder b then Inl WebHookConfigurationError
             else if unknown_placeholder (the (url cfg)) then Inl WebHookConfigurationError
             else Inr ()))"

text \<open>The arguments of \<^verbatim>\<open>requests.request\<close>.\<close>

record http_request =
  http_method :: "string option"
  http_url :: string
  http_timeout :: int
  http_data :: "string option"
  http_headers :: "(string \<times> string) list"

text \<open>
  \<^verbatim>\<open>WebHook._send\<close>; \<open>http\<close> is the exchange (\<^verbatim>\<open>requests.request\<close> and
  \<^verbatim>\<open>raise_for_status\<close>) with the world outside, which returns or raises and leaves a world.
\<close>

definition WebHook_send ::
  "(http_request \<Rightarrow> 'w \<Rightarrow> exn option \<times> 'w) \<Rightarrow> WebHookConfig \<Rightarrow> Item \<Rightarrow> 'w
     \<Rightarrow> exn option \<times> 'w" where
  "WebHook_send http cfg it w =
     (case url cfg of
        None \<Rightarrow> (Some TypeError, w)
      | Some u \<Rightarrow>
          (case body cfg of
             None \<Rightarrow>
               http \<lparr>http_method = method' cfg, http_url = render it u,
                     http_timeout = timeout' cfg, http_data = None,
                     http_headers = [(''Content-Type'', type' cfg)]\<rparr> w
           | Some b \<Rightarrow>
               if b = [] then
                 http \<lparr>http_method = method' cfg, http_url = render it u,
                       http_timeout = timeout' cfg, http_data = None,
                       http_headers = [(''Content-Type'', type' cfg)]\<rparr> w
               else
                 http \<lparr>http_method = method' cfg, http_url = render it u,
                       http_timeout = timeout' cfg, http_data = Some (render it b),
                       http_headers = [(''Content-Type'', type' cfg),
                         (''Content-Length'', str_int (int (length (render it b))))]\<rparr> w))"

text \<open>
  Constructing the notifier (\<^verbatim>\<open>Notifier.__init__\<close>): setting \<^verbatim>\<open>enabled\<close> to true runs
  \<^verbatim>\<open>_init\<close>, and what \<^verbatim>\<open>_init\<close> raises leaves the constructor.
\<close>

definition WebHook_new ::
  "(http_request \<Rightarrow> 'w \<Rightarrow> exn option \<times> 'w) \<Rightarrow> WebHookConfig \<Rightarrow> exn + 'w Notifier" where
  "WebHook_new http cfg =
     (if enabled' cfg then
        (case WebHook_init cfg of
           Inl e \<Rightarrow> Inl e
         | Inr u \<Rightarrow> Inr \<lparr>enabled = True, send_impl = WebHook_send http cfg\<rparr>)
      else Inr \<lparr>enabled = False, send_impl = WebHook_send http cfg\<rparr>)"

subsection \<open>Statements about templates\<close>

text \<open>
  The text a template stands for when every placeholder is replaced by the value of its
  attribute, each match of the template once and by itself (a placeholder without
  attribute stays as it is).
\<close>

function substitute :: "Item \<Rightarrow> string \<Rightarrow> string" where
  "substitute it [] = []"
| "substitute it (c # cs) =
     (case match_here (c # cs) of
        Some (w, r) \<Rightarrow>
          (case Item_getattr it w of Some v \<Rightarrow> v | None \<Rightarrow> placeholder w) @ substitute it r
      | None \<Rightarrow> c # substitute it cs)"
  by pat_completeness auto
termination
proof (relation "measure (\<lambda>(it, s). length s)")
  fix it :: Item and c cs x w r
  assume "match_here (c # cs) = Some x" and "(w, r) = x"
  then have "r = drop 2 (dropWhile is_word_char (drop 3 (c # cs)))"
    by (auto simp: match_here_def Let_def split: if_splits)
  moreover have "length (dropWhile is_word_char (drop 3 (c # cs))) \<le> length (drop 3 (c # cs))"
    by (rule length_dropWhile_le)
  ultimately show "((it, r), (it, c # cs)) \<in> measure (\<lambda>(it, s). length s)" by simp
qed simp_all

text \<open>The three characters that open a placeholder occur somewhere in the text.\<close>

fun has_opener :: "string \<Rightarrow> bool" where
  "has_opener [] = False"
| "has_opener (c # cs) = (take 3 (c # cs) = ''${{'' \<or> has_opener cs)"

text \<open>
  For the proofs: a text cut into literal pieces and placeholders; the template cut at
  its matches; the pieces after the placeholders with a name in \<open>S\<close> were replaced; and a
  cut is tidy when the opening characters start nowhere inside a literal piece.
\<close>

datatype segment = Lit string | Ph string

fun flatten :: "segment list \<Rightarrow> string" where
  "flatten [] = []"
| "flatten (Lit s # segs) = s @ flatten segs"
| "flatten (Ph name # segs) = placeholder name @ flatten segs"

function parse :: "string \<Rightarrow> segment list" where
  "parse [] = []"
| "parse (c # cs) =
     (case match_here (c # cs) of
        Some (w, r) \<Rightarrow> Ph w # parse r
      | None \<Rightarrow> Lit [c] # parse cs)"
  by pat_completeness auto
termination
proof (relation "measure length")
  fix c cs x w r
  assume "match_here (c # cs) = Some x" and "(w, r) = x"
  then have "r = drop 2 (dropWhile is_word_char (drop 3 (c # cs)))"
    by (auto simp: match_here_def Let_def split: if_splits)
  moreover have "length (dropWhile is_word_char (drop 3 (c # cs))) \<le> length (drop 3 (c # cs))"
    by (rule length_dropWhile_le)
  ultimately show "(r, c # cs) \<in> measure length" by simp
qed simp_all

fun fill :: "Item \<Rightarrow> segment \<Rightarrow> string" where
  "fill it (Lit s) = s"
| "fill it (Ph name) =
     (case Item_getattr it name of Some v \<Rightarrow> v | None \<Rightarrow> placeholder name)"

fun named :: "segment \<Rightarrow> bool" where
  "named (Lit s) = True"
| "named (Ph name) = (name \<noteq> [] \<and> list_all is_word_char name)"

fun names_of :: "segment list \<Rightarrow> string list" where
  "names_of [] = []"
| "names_of (Lit s # segs) = names_of segs"
| "names_of (Ph name # segs) = name # names_of segs"

fun fill_names :: "Item \<Rightarrow> string set \<Rightarrow> segment \<Rightarrow> segment" where
  "fill_names it S (Lit s) = Lit s"
| "fill_names it S (Ph n) =
     (if n \<in> S then (case Item_getattr it n of Some v \<Rightarrow> Lit v | None \<Rightarrow> Ph n) else Ph n)"

fun tidy :: "segment list \<Rightarrow> bool" where
  "tidy [] = True"
| "tidy (Lit s # segs) =
     (list_all (\<lambda>i. take 3 (drop i (s @ flatten segs)) \<noteq> ''${{'') [0 ..< length s] \<and> tidy segs)"
| "tidy (Ph name # segs) = tidy segs"

text \<open>One iteration of the loop of \<^verbatim>\<open>_send\<close>.\<close>

definition render_step :: "Item \<Rightarrow> string \<Rightarrow> string \<Rightarrow> string" where
  "render_step it text name =
     (case Item_getattr it name of
        Some v \<Rightarrow> str_replace (placeholder name) v text
      | None \<Rightarrow> text)"

section \<open>Example data\<close>

text \<open>An item as the scanner builds it from one record of the favorites listing.\<close>

definition bag :: "string \<Rightarrow> int \<Rightarrow> Item" where
  "bag i n = \<lparr>item_id = i, items_available = n, display_name = ''Bakery'',
              price = ''3.99'', currency = ''EUR'', pickupdate = ''undefined'',
              other_attrs = []\<rparr>"


definition failing :: "exn \<Rightarrow> Item \<Rightarrow> exn option" where
  "failing e it = Some e"

text \<open>
  Channels that send to an outbox, the list of what was delivered, by which channel: one
  that delivers the item, and one that raises and delivers nothing.
\<close>

definition delivers :: "channel \<Rightarrow> Item \<Rightarrow> (channel \<times> Item) list \<Rightarrow> exn option \<times> (channel \<times> Item) list" where
  "delivers c it box = (None, box @ [(c, it)])"

definition breaks :: "exn \<Rightarrow> Item \<Rightarrow> (channel \<times> Item) list \<Rightarrow> exn option \<times> (channel \<times> Item) list" where
  "breaks e it box = (Some e, box)"

text \<open>
  Five channels: the mail channel raises on every send, the IFTTT channel is disabled
  (and would interrupt the process if it were ever sent to), the others deliver.
\<close>

definition five_channels :: "(channel \<times> Item) list Notifiers" where
  "five_channels =
     \<lparr>push_safer = \<lparr>enabled = True, send_impl = delivers PushSafer\<rparr>,
      smtp = \<lparr>enabled = True, send_impl = breaks (OtherException ''SMTPException'')\<rparr>,
      ifttt = \<lparr>enabled = False, send_impl = breaks (NonException ''SystemExit'')\<rparr>,
      webhook = \<lparr>enabled = True, send_impl = delivers WebHook\<rparr>,
      telegram = \<lparr>enabled = True, send_impl = delivers Telegram\<rparr>\<rparr>"


text \<open>A scanner without notifiers, whose every dispatch raises, and failing metrics.\<close>

definition broken_scanner :: "(string \<rightharpoonup> int) \<Rightarrow> (channel \<times> Item) list Scanner" where
  "broken_scanner am = \<lparr>amounts = am, notifiers = None,
                     metrics_send_notifications = failing ValueError,
                     metrics_item_count = failing ValueError, outside = []\<rparr>"

text \<open>
  Favorites listings. An item is the number of the page it came on; the world of the
  last two counts the requests answered so far. The first listing has two full pages and
  a page of 40; the second answers the first request and fails from then on; the third
  fails on the second request only.
\<close>

definition two_full_then_40 :: "unit \<Rightarrow> nat \<Rightarrow> nat \<Rightarrow> (exn + nat list) \<times> unit" where
  "two_full_then_40 w ps p = (Inr (replicate (if p < 3 then 100 else 40) p), w)"

definition fails_from_second :: "nat \<Rightarrow> nat \<Rightarrow> nat \<Rightarrow> (exn + nat list) \<times> nat" where
  "fails_from_second w ps p =
     (if w = 0 then Inr (replicate 100 p) else Inl (TgtgAPIError [AInt 500, AStr []]), w + 1)"

definition fails_second_only :: "nat \<Rightarrow> nat \<Rightarrow> nat \<Rightarrow> (exn + nat list) \<times> nat" where
  "fails_second_only w ps p =
     (if w = 1 then Inl (TgtgAPIError [AInt 500, AStr []])
      else Inr (replicate (if p < 3 then 100 else 40) p), w + 1)"

text \<open>
  Providers: one that answers every request with 202; one that confirms the login on the
  second request; one that answers with a given state, or a given status; one that answers
  the login with WAIT and every poll with 202.
\<close>

definition always_pending :: "request list \<Rightarrow> exn + response" where
  "always_pending reqs = Inr \<lparr>status_code = 202, content = [], json_body = None\<rparr>"

definition login_body :: json where
  "login_body =
     JObj [(''access_token'', JStr ''at-1''), (''refresh_token'', JStr ''rt-1''),
           (''startup_data'', JObj [(''user'', JObj [(''user_id'', JStr ''4711'')])])]"

definition confirms_second :: "request list \<Rightarrow> exn + response" where
  "confirms_second reqs =
     (if length reqs = 2
      then Inr \<lparr>status_code = 200, content = ''{...}'', json_body = Some login_body\<rparr>
      else Inr \<lparr>status_code = 202, content = [], json_body = None\<rparr>)"

definition says_state :: "string \<Rightarrow> request list \<Rightarrow> exn + response" where
  "says_state st reqs =
     Inr \<lparr>status_code = 200, content = ''{...}'',
          json_body = Some (JObj [(''state'', JStr st), (''polling_id'', JStr ''poll-1'')])\<rparr>"

definition says_status :: "int \<Rightarrow> request list \<Rightarrow> exn + response" where
  "says_status n reqs = Inr \<lparr>status_code = n, content = ''busy'', json_body = None\<rparr>"

definition wait_then_pending :: "request list \<Rightarrow> exn + response" where
  "wait_then_pending reqs =
     (if length reqs = 1 then says_state ''WAIT'' reqs else always_pending reqs)"

text \<open>A world at its start, with the given provider.\<close>

definition world_of :: "(request list \<Rightarrow> exn + response) \<Rightarrow> world" where
  "world_of provider = \<lparr>now = 1000000000, net = provider, sent = [], slept = []\<rparr>"

text \<open>
  Clients: one with an email and no credentials, polling at most 3 times with 5 seconds
  in between; one with neither email nor credentials; one with credentials, refreshed at
  time 0, with the default lifetime of 4 hours, in a world 25 hours later.
\<close>

definition email_client :: TgtgClient where
  "email_client =
     \<lparr>base_url = BASE_URL, email = Some ''me@example.org'', access_token = JNull,
      refresh_token = JNull, user_id = JNull, last_time_token_refreshed = None,
      access_token_lifetime = 14400, max_polling_tries = 3,
      polling_wait_time = 5, device_type = ''ANDROID'',
      user_agent = USER_AGENTS ! 0, language = ''en-UK'', timeout = Some 60\<rparr>"

definition anonymous_client :: TgtgClient where
  "anonymous_client =
     \<lparr>base_url = BASE_URL, email = None, access_token = JNull,
      refresh_token = JNull, user_id = JNull, last_time_token_refreshed = None,
      access_token_lifetime = 14400, max_polling_tries = 24,
      polling_wait_time = 5, device_type = ''ANDROID'',
      user_agent = USER_AGENTS ! 0, language = ''en-UK'', timeout = Some 60\<rparr>"

definition stale_client :: TgtgClient where
  "stale_client =
     \<lparr>base_url = BASE_URL, email = Some ''me@example.org'', access_token = JStr ''at-0'',
      refresh_token = JStr ''rt-0'', user_id = JStr ''4711'',
      last_time_token_refreshed = Some 0,
      access_token_lifetime = 14400, max_polling_tries = 24,
      polling_wait_time = 5, device_type = ''ANDROID'',
      user_agent = USER_AGENTS ! 0, language = ''en-UK'', timeout = Some 60\<rparr>"

definition day_later :: world where
  "day_later = \<lparr>now = 90000 * 1000000, net = says_status 200, sent = [], slept = []\<rparr>"

text \<open>
  Webhooks: a configuration with the given URL and body; an exchange that puts the
  request into an outbox and succeeds; two templates, the one of the body with a dollar
  sign that belongs to no placeholder; and an item whose display name is itself a
  placeholder.
\<close>

definition hook_config :: "string \<Rightarrow> string option \<Rightarrow> WebHookConfig" where
  "hook_config u b =
     \<lparr>enabled' = True, url = Some u, method' = Some ''POST'', body = b,
      type' = ''text/plain'', timeout' = 60\<rparr>"

definition posts :: "http_request \<Rightarrow> http_request list \<Rightarrow> exn option \<times> http_request list" where
  "posts req box = (None, box @ [req])"

definition url_template :: string where
  "url_template = ''https://example.org/hook?id=${{item_id}}''"

definition body_template :: string where
  "body_template = ''${{display_name}}: ${{items_available}} bags, $${{price}} each''"

definition odd_name :: Item where
  "odd_name = (bag ''A'' 3)\<lparr>display_name := ''${{items_available}}''\<rparr>"

section \<open>Failure isolation between channels\<close>

lemma Notifier_send_caught:
  assumes "\<And>w e. enabled n \<Longrightarrow> fst (send_impl n it w) = Some e \<Longrightarrow> is_Exception e"
  shows "Notifier_send n it w = (None, if enabled n then snd (send_impl n it w) else w)"
proof (cases "enabled n")
  case False
  then show ?thesis by (simp add: Notifier_send_def)
next
  case True
  obtain r w' where s: "send_impl n it w = (r, w')"
    by (cases "send_impl n it w")
  show ?thesis
  proof (cases r)
    case None
    then show ?thesis using True s by (simp add: Notifier_send_def)
  next
    case (Some e)
    then have "is_Exception e" using assms [of w e] True s by simp
    then show ?thesis using True s Some by (simp add: Notifier_send_def)
  qed
qed

lemma send_each_isolated:
  "(\<And>c n w e. (c, n) \<in> set chs \<Longrightarrow> enabled n \<Longrightarrow> fst (send_impl n it w) = Some e
      \<Longrightarrow> is_Exception e) \<Longrightarrow>
   send_each chs it w =
     (None, foldl (\<lambda>w n. snd (send_impl n it w)) w (filter enabled (map snd chs)))"
proof (induction chs arbitrary: w)
  case Nil
  show ?case by simp
next
  case (Cons cn chs)
  obtain c n where cn: "cn = (c, n)" by (cases cn)
  have here: "Notifier_send n it w = (None, if enabled n then snd (send_impl n it w) else w)"
    by (rule Notifier_send_caught) (use Cons.prems [of c n] cn in auto)
  have rest: "\<And>w. send_each chs it w =
      (None, foldl (\<lambda>w n. snd (send_impl n it w)) w (filter enabled (map snd chs)))"
    by (rule Cons.IH) (use Cons.prems in auto)
  show ?case
    by (simp add: cn here rest)
qed

text \<open>
  C9: dispatching an item over the five channels returns without raising, and the world
  after it is the world in which the \<^verbatim>\<open>_send\<close> of every enabled channel has run on the
  item, one after the other in the order of the source, and no other: however many of the
  enabled channels raise an \<^verbatim>\<open>Exception\<close>, the others are still sent to, and a disabled
  channel is never sent to.
\<close>

theorem Notifiers_send_isolation:
  assumes "\<forall>cn \<in> set (channels ns). \<forall>w e.
             enabled (snd cn) \<and> fst (send_impl (snd cn) it w) = Some e \<longrightarrow> is_Exception e"
  shows "Notifiers_send ns it w =
           (None, foldl (\<lambda>w n. snd (send_impl n it w)) w
                    (filter enabled (map snd (channels ns))))"
  unfolding Notifiers_send_def
proof (rule send_each_isolated)
  fix c n w e
  assume "(c, n) \<in> set (channels ns)" and "enabled n" and "fst (send_impl n it w) = Some e"
  with assms show "is_Exception e" by fastforce
qed

theorem Notifiers_send_isolation_witness:
  "Notifiers_send five_channels (bag ''A'' 3) [] =
     (None, [(PushSafer, bag ''A'' 3), (WebHook, bag ''A'' 3), (Telegram, bag ''A'' 3)])"
  using Notifiers_send_isolation [of five_channels "bag ''A'' 3" "[]"]
  by (simp add: channels_def five_channels_def delivers_def breaks_def)

section \<open>The rising edge\<close>

lemma check_item_try_sent:
  "fst (snd (check_item_try sc it)) =
     (if amounts sc (item_id it) = Some 0 \<and> 0 < items_available it then [it] else [])"
  by (auto simp: check_item_try_def split: option.splits prod.splits)

lemma dispatched_check_item:
  "dispatched (Scanner_check_item sc it) = fst (snd (check_item_try sc it))"
  by (auto simp: dispatched_def Scanner_check_item_def split: option.splits prod.splits)

lemma check_item_except_key:
  "check_item_try sc it = (exc, rest) \<Longrightarrow> check_item_except sc it exc = (am, pending) \<Longrightarrow>
   am (item_id it) \<noteq> None"
  by (auto simp: check_item_try_def check_item_except_def
           split: option.splits prod.splits if_splits)

lemma amounts_after_check_item:
  "amounts (scanner_after (Scanner_check_item sc it)) (item_id it) = Some (items_available it)"
proof -
  obtain exc ds w where t: "check_item_try sc it = (exc, ds, w)"
    by (cases "check_item_try sc it")
  obtain am pending where e: "check_item_except sc it exc = (am, pending)"
    by (cases "check_item_except sc it exc")
  from check_item_except_key [OF t e] obtain v where v: "am (item_id it) = Some v"
    by auto
  show ?thesis
    by (simp add: scanner_after_def Scanner_check_item_def t e v)
qed




lemma raised_not_Exception:
  "raised (Scanner_check_item sc it) = Some e \<Longrightarrow> \<not> is_Exception e"
proof -
  assume r: "raised (Scanner_check_item sc it) = Some e"
  obtain exc ds w where t: "check_item_try sc it = (exc, ds, w)"
    by (cases "check_item_try sc it")
  obtain am pending where x: "check_item_except sc it exc = (am, pending)"
    by (cases "check_item_except sc it exc")
  from check_item_except_key [OF t x] obtain v where v: "am (item_id it) = Some v"
    by auto
  have "pending = Some e"
    using r by (simp add: raised_def Scanner_check_item_def t x v split: if_splits)
  then show ?thesis
    using x by (auto simp: check_item_except_def split: option.splits if_splits)
qed



text \<open>
  C10: after every call of \<^verbatim>\<open>_check_item\<close> the count recorded for the item is the count
  just observed, whatever the dispatch and the metrics calls do (return, raise an
  \<^verbatim>\<open>Exception\<close>, raise something else) and whether or not the item was recorded before.
  So the next observation of the item, in any scanner holding these counts, dispatches
  only if the count observed now was 0: a rising edge whose dispatch failed is not seen
  again.
\<close>

theorem check_item_records_count:
  assumes "amounts sc2 = amounts (scanner_after (Scanner_check_item sc it))"
    and "item_id it2 = item_id it"
  shows "amounts (scanner_after (Scanner_check_item sc it)) (item_id it)
           = Some (items_available it) \<and>
         dispatched (Scanner_check_item sc2 it2) =
           (if items_available it = 0 \<and> 0 < items_available it2 then [it2] else [])"
  using assms
  by (simp add: amounts_after_check_item dispatched_check_item check_item_try_sent)

theorem check_item_records_count_witness:
  "amounts (scanner_after (Scanner_check_item (broken_scanner [''A'' \<mapsto> 0]) (bag ''A'' 3))) ''A''
     = Some 3 \<and>
   dispatched (Scanner_check_item (broken_scanner [''A'' \<mapsto> 3]) (bag ''A'' 4)) = []"
proof -
  have a: "amounts (broken_scanner [''A'' \<mapsto> 3])
             = amounts (scanner_after (Scanner_check_item (broken_scanner [''A'' \<mapsto> 0]) (bag ''A'' 3)))"
    by (simp add: broken_scanner_def bag_def scanner_after_def Scanner_check_item_def
        check_item_try_def check_item_except_def Scanner_send_messages_def failing_def)
  have b: "item_id (bag ''A'' 4) = item_id (bag ''A'' 3)"
    by (simp add: bag_def)
  show ?thesis
    using check_item_records_count [OF a b] by (simp add: bag_def)
qed

section \<open>Fetching the favorites\<close>

lemma loop_pages:
  "answers g w p (full @ [short]) w' \<Longrightarrow> \<forall>x \<in> set full. page_size \<le> length x \<Longrightarrow>
   length short < page_size \<Longrightarrow> ec < 5 \<Longrightarrow>
   favorites_loop g w items p ec reqs =
     Some (Inr (items @ concat full @ short),
           reqs @ map (\<lambda>q. (page_size, q)) [p ..< p + length full + 1], ec, w')"
proof (induction full arbitrary: w p items reqs)
  case Nil
  then show ?case
    by (subst favorites_loop.simps) (auto split: prod.splits sum.splits)
next
  case (Cons x full)
  from Cons.prems(1) obtain w1 where g: "g w page_size p = (Inr x, w1)"
    and rest: "answers g w1 (p + 1) (full @ [short]) w'"
    by (auto split: prod.splits sum.splits)
  have x: "\<not> length x < page_size" using Cons.prems(2) by auto
  have ih: "favorites_loop g w1 (items @ x) (p + 1) ec (reqs @ [(page_size, p)]) =
     Some (Inr ((items @ x) @ concat full @ short),
           (reqs @ [(page_size, p)]) @ map (\<lambda>q. (page_size, q)) [p + 1 ..< p + 1 + length full + 1], ec, w')"
    using Cons.IH [OF rest _ Cons.prems(3) Cons.prems(4)] Cons.prems(2) by (simp del: upt_Suc)
  have u: "[p ..< p + length (x # full) + 1] = p # [p + 1 ..< p + 1 + length full + 1]"
    using upt_conv_Cons [of p "p + length (x # full) + 1"] by (simp del: upt_Suc)
  show ?case
    apply (subst favorites_loop.simps)
    apply (simp only: g x Cons.prems(4) if_True if_False prod.case sum.case ih u)
    apply (simp del: upt_Suc)
    done
qed

lemma loop_error_step:
  "ec < 5 \<Longrightarrow> g w page_size p = (Inl e, w1) \<Longrightarrow> is_Exception e \<Longrightarrow>
   favorites_loop g w items p ec reqs =
     favorites_loop g w1 items p (ec + 1) (reqs @ [(page_size, p)])"
  by (subst favorites_loop.simps) simp

lemma loop_stop: "5 \<le> ec \<Longrightarrow> favorites_loop g w items p ec reqs = Some (Inr items, reqs, ec, w)"
  by (subst favorites_loop.simps) simp

lemma loop_errors:
  "n = 5 - ec \<Longrightarrow> ec \<le> 5 \<Longrightarrow> raises g w p n w' \<Longrightarrow>
   favorites_loop g w items p ec reqs =
     Some (Inr items, reqs @ replicate n (page_size, p), 5, w')"
proof (induction n arbitrary: w ec reqs)
  case 0
  then show ?case by (simp add: loop_stop)
next
  case (Suc n)
  from Suc.prems(3) obtain e w1 where g: "g w page_size p = (Inl e, w1)"
    and e: "is_Exception e" and rest: "raises g w1 p n w'"
    by (auto split: prod.splits sum.splits)
  have ec: "ec < 5" using Suc.prems by simp
  have "favorites_loop g w1 items p (ec + 1) (reqs @ [(page_size, p)]) =
          Some (Inr items, (reqs @ [(page_size, p)]) @ replicate n (page_size, p), 5, w')"
    using Suc.prems by (intro Suc.IH rest) simp_all
  then show ?case
    by (simp add: loop_error_step [where g = g and w = w and p = p, OF ec g e] replicate_app_Cons_same)
qed

text \<open>
  C2: the favorites are requested page after page, from page 1, with page size 100, and
  the items of every page are accumulated until a page shorter than the page size comes:
  when the provider answers with full pages and then a short one, the result is the
  items of all these pages in order, one request was issued per page, numbered from 1, and
  no error was counted. With two full pages and a page of 40 that is 240 items and the
  requests for the pages 1, 2, 3.
\<close>

theorem get_favorites_pages:
  assumes "answers g w 1 (full @ [short]) w'"
    and "\<forall>x \<in> set full. page_size \<le> length x"
    and "length short < page_size"
  shows "page_size = 100 \<and>
         Scanner_get_favorites g w =
           Some (Inr (concat full @ short),
                 map (\<lambda>q. (page_size, q)) [1 ..< length full + 2], 0, w')"
  using loop_pages [OF assms, of 0 "[]" "[]"]
  by (simp add: Scanner_get_favorites_def page_size_def)

theorem get_favorites_pages_witness:
  "Scanner_get_favorites two_full_then_40 () =
     Some (Inr (replicate 100 1 @ replicate 100 2 @ replicate 40 3),
           [(100, 1), (100, 2), (100, 3)], 0, ()) \<and>
   length (replicate 100 (1::nat) @ replicate 100 2 @ replicate 40 3) = 240"
  using get_favorites_pages [of two_full_then_40 "()" "[replicate 100 1, replicate 100 2]"
      "replicate 40 3" "()"]
  by (simp add: two_full_then_40_def page_size_def)

text \<open>
  C3: when the request for a page raises an \<^verbatim>\<open>Exception\<close>, the loop goes on with the same
  page number, the same items and the error count one higher; and when the requests keep
  raising until the error count is 5, the loop returns the items accumulated so far,
  without raising, having requested that same page each time and nothing after.
\<close>

theorem get_favorites_retries_same_page:
  "(ec < 5 \<and> g w page_size p = (Inl e, w1) \<and> is_Exception e \<longrightarrow>
      favorites_loop g w items p ec reqs =
        favorites_loop g w1 items p (ec + 1) (reqs @ [(page_size, p)])) \<and>
   (ec \<le> 5 \<and> raises g w p (5 - ec) w' \<longrightarrow>
      favorites_loop g w items p ec reqs =
        Some (Inr items, reqs @ replicate (5 - ec) (page_size, p), 5, w'))"
proof (intro conjI impI)
  assume "ec < 5 \<and> g w page_size p = (Inl e, w1) \<and> is_Exception e"
  then show "favorites_loop g w items p ec reqs =
        favorites_loop g w1 items p (ec + 1) (reqs @ [(page_size, p)])"
    using loop_error_step [where g = g and w = w and p = p] by blast
next
  assume "ec \<le> 5 \<and> raises g w p (5 - ec) w'"
  then show "favorites_loop g w items p ec reqs =
        Some (Inr items, reqs @ replicate (5 - ec) (page_size, p), 5, w')"
    using loop_errors [where g = g and w = w and p = p and ec = ec] by blast
qed

theorem get_favorites_retries_same_page_witness:
  "Scanner_get_favorites fails_from_second 0 =
     Some (Inr (replicate 100 1),
           [(100, 1), (100, 2), (100, 2), (100, 2), (100, 2), (100, 2)], 5, 6) \<and>
   Scanner_get_favorites fails_second_only 0 =
     Some (Inr (replicate 100 1 @ replicate 100 2 @ replicate 40 3),
           [(100, 1), (100, 2), (100, 2), (100, 3)], 1, 4)"
proof
  have start: "Scanner_get_favorites fails_from_second 0 =
          favorites_loop fails_from_second 1 (replicate 100 1) 2 0 [(100, 1)]"
    unfolding Scanner_get_favorites_def
    by (subst favorites_loop.simps) (simp add: fails_from_second_def page_size_def numeral_2_eq_2)
  have r: "raises fails_from_second 1 2 (5 - 0) 6"
    by (simp add: eval_nat_numeral fails_from_second_def)
  show "Scanner_get_favorites fails_from_second 0 =
     Some (Inr (replicate 100 1),
           [(100, 1), (100, 2), (100, 2), (100, 2), (100, 2), (100, 2)], 5, 6)"
    using get_favorites_retries_same_page [of 0 fails_from_second 1 2 _ _ "replicate 100 1"
        "[(100, 1)]" 6] r
    by (simp add: start page_size_def eval_nat_numeral)
next
  have start: "Scanner_get_favorites fails_second_only 0 =
          favorites_loop fails_second_only 1 (replicate 100 1) 2 0 [(100, 1)]"
    unfolding Scanner_get_favorites_def
    by (subst favorites_loop.simps) (simp add: fails_second_only_def page_size_def numeral_2_eq_2)
  have retry: "favorites_loop fails_second_only 1 (replicate 100 1) 2 0 [(100, 1)] =
          favorites_loop fails_second_only 2 (replicate 100 1) 2 1 [(100, 1), (100, 2)]"
    using get_favorites_retries_same_page [of 0 fails_second_only 1 2
        "TgtgAPIError [AInt 500, AStr []]" 2 "replicate 100 1" "[(100, 1)]"]
    by (simp add: fails_second_only_def page_size_def)
  show "Scanner_get_favorites fails_second_only 0 =
     Some (Inr (replicate 100 1 @ replicate 100 2 @ replicate 40 3),
           [(100, 1), (100, 2), (100, 2), (100, 3)], 1, 4)"
    by (simp add: start retry favorites_loop.simps fails_second_only_def page_size_def)
qed

section \<open>Login by polling\<close>

lemma after_polls_0: "after_polls w c pid 0 = w"
  by (simp add: after_polls_def)

lemma net_after_polls: "net (after_polls w c pid k) = net w"
  by (simp add: after_polls_def)

lemma sent_after_polls:
  "sent (after_polls w c pid k) = sent w @ replicate k (polling_request c pid)"
  by (simp add: after_polls_def)

lemma polling_request_eta:
  "\<lparr>endpoint = endpoint (polling_request c pid), payload = payload (polling_request c pid)\<rparr>
     = polling_request c pid"
  by (simp add: polling_request_def)

lemma poll_request_after:
  "TgtgClient_request (after_polls w c pid k) (endpoint (polling_request c pid))
      (payload (polling_request c pid)) =
   (net w (sent w @ replicate (Suc k) (polling_request c pid)),
    (after_polls w c pid k)\<lparr>sent := sent w @ replicate (Suc k) (polling_request c pid)\<rparr>)"
  by (simp add: TgtgClient_request_def Let_def after_polls_def polling_request_eta
      replicate_append_same)

lemma sleep_after_poll:
  "can_sleep (polling_wait_time c) \<Longrightarrow>
   sleep ((after_polls w c pid k)\<lparr>sent := sent w @ replicate (Suc k) (polling_request c pid)\<rparr>)
      (polling_wait_time c) = Inr (after_polls w c pid (Suc k))"
  by (simp add: sleep_def can_sleep_def after_polls_def replicate_append_same algebra_simps)

lemma polling_loop_pending:
  "k = 0 \<or> can_sleep (polling_wait_time c) \<Longrightarrow>
   pending_polls w (polling_request c pid) k \<Longrightarrow> k \<le> n \<Longrightarrow>
   polling_loop n c w pid = polling_loop (n - k) c (after_polls w c pid k) pid"
proof (induction k)
  case 0
  show ?case by (simp add: after_polls_0)
next
  case (Suc k)
  from Suc.prems(2) obtain resp
    where p: "pending_polls w (polling_request c pid) k"
      and r: "net w (sent w @ replicate (Suc k) (polling_request c pid)) = Inr resp"
      and s: "status_code resp = 202"
    by (auto split: sum.splits)
  obtain m where m: "n - k = Suc m" "n - Suc k = m"
    using Suc.prems(3) by (cases "n - k") auto
  have "polling_loop n c w pid = polling_loop (Suc m) c (after_polls w c pid k) pid"
    using Suc.IH [OF _ p] Suc.prems(1,3) m by simp
  also have "\<dots> = polling_loop m c (after_polls w c pid (Suc k)) pid"
    using Suc.prems(1) by (simp add: poll_request_after r s sleep_after_poll del: replicate_Suc)
  finally show ?case by (simp add: m)
qed

lemma store_login_world: "snd (snd (store_login c w resp)) = w"
  by (auto simp: store_login_def Let_def split: option.splits sum.splits)

lemma polling_loop_sent:
  "length (sent (snd (snd (polling_loop n c w pid)))) \<le> length (sent w) + n"
proof (induction n arbitrary: w)
  case 0
  show ?case by simp
next
  case (Suc n)
  obtain r w1 where q: "TgtgClient_request w (endpoint (polling_request c pid))
      (payload (polling_request c pid)) = (r, w1)"
    by (cases "TgtgClient_request w (endpoint (polling_request c pid))
      (payload (polling_request c pid))")
  have w1: "length (sent w1) = length (sent w) + 1"
    using q by (auto simp: TgtgClient_request_def Let_def)
  show ?case
  proof (cases r)
    case (Inl e)
    then show ?thesis using q w1 by simp
  next
    case (Inr resp)
    show ?thesis
    proof (cases "status_code resp = 202")
      case False
      then show ?thesis using q w1 Inr by (simp add: store_login_world)
    next
      case True
      show ?thesis
      proof (cases "sleep w1 (polling_wait_time c)")
        case (Inl e)
        then show ?thesis using q w1 Inr True by simp
      next
        case (Inr w2)
        then have "length (sent w2) = length (sent w1)"
          by (auto simp: sleep_def split: if_splits)
        with Suc.IH [of w2] show ?thesis
          using q w1 \<open>r = Inr resp\<close> True Inr by simp
      qed
    qed
  qed
qed

lemma start_polling_exhausted:
  assumes "nat (max_polling_tries c) = 0 \<or> can_sleep (polling_wait_time c)"
    and "pending_polls w (polling_request c pid) (nat (max_polling_tries c))"
  shows "TgtgClient_start_polling c w pid =
           (Inl (TgtgPollingError [AStr (polling_timeout_message c)]), c,
            after_polls w c pid (nat (max_polling_tries c)))"
  unfolding TgtgClient_start_polling_def
  using polling_loop_pending [OF assms, of "nat (max_polling_tries c)"] by simp

lemma start_polling_confirmed:
  assumes wait: "k = 0 \<or> can_sleep (polling_wait_time c)"
    and k: "k < nat (max_polling_tries c)"
    and pend: "pending_polls w (polling_request c pid) k"
    and resp: "net w (sent w @ replicate (Suc k) (polling_request c pid)) = Inr resp"
    and ok: "status_code resp = 200"
    and body: "json_body resp = Some j"
    and a: "getitem j ''access_token'' = Inr a"
    and r: "getitem j ''refresh_token'' = Inr r"
    and sd: "getitem j ''startup_data'' = Inr sd"
    and u: "getitem sd ''user'' = Inr u"
    and uid: "getitem u ''user_id'' = Inr uid"
  shows "TgtgClient_start_polling c w pid =
           (Inr (),
            c\<lparr>access_token := a, refresh_token := r,
              last_time_token_refreshed := Some (now (after_polls w c pid k)),
              user_id := uid\<rparr>,
            (after_polls w c pid k)
              \<lparr>sent := sent w @ replicate (Suc k) (polling_request c pid)\<rparr>)"
proof -
  obtain m where m: "nat (max_polling_tries c) - k = Suc m"
    using k by (cases "nat (max_polling_tries c) - k") auto
  have "TgtgClient_start_polling c w pid = polling_loop (Suc m) c (after_polls w c pid k) pid"
    unfolding TgtgClient_start_polling_def
    using polling_loop_pending [OF wait pend, of "nat (max_polling_tries c)"] k m by simp
  also have "\<dots> = store_login c ((after_polls w c pid k)
              \<lparr>sent := sent w @ replicate (Suc k) (polling_request c pid)\<rparr>) resp"
    by (simp add: poll_request_after resp ok del: replicate_Suc)
  finally show ?thesis
    by (simp add: store_login_def body a r sd u uid Let_def after_polls_def del: replicate_Suc)
qed

text \<open>
  C4, as amended: \<^verbatim>\<open>start_polling\<close> posts at most \<open>max_polling_tries\<close> requests. Where a
  wait occurs, let \<open>polling_wait_time\<close> be a wait that \<^verbatim>\<open>time.sleep\<close> accepts. When every
  one of the \<open>max_polling_tries\<close> requests is answered "pending", each was followed by a
  sleep of \<open>polling_wait_time\<close> seconds and the call raises \<^verbatim>\<open>TgtgPollingError\<close> with a
  message that reports \<open>max_polling_tries * polling_wait_time\<close> seconds, the client
  unchanged. When an attempt within the bound is answered with status 200 after pending
  ones, the access token, the refresh token and the user id of the response are stored,
  the time of the last refresh is the clock's, and the call returns with no further
  request. With 3 tries, three pending answers give the error, and a confirmation on the
  second attempt gives a logged-in client.
\<close>

theorem start_polling_bounded:
  "length (sent (snd (snd (TgtgClient_start_polling c w pid))))
     \<le> length (sent w) + nat (max_polling_tries c) \<and>
   ((nat (max_polling_tries c) = 0 \<or> can_sleep (polling_wait_time c)) \<and>
    pending_polls w (polling_request c pid) (nat (max_polling_tries c)) \<longrightarrow>
      TgtgClient_start_polling c w pid =
        (Inl (TgtgPollingError
               [AStr (''Max retries (''
                        @ str_int (max_polling_tries c * polling_wait_time c)
                        @ '' seconds) reached. Try again.'')]),
         c, after_polls w c pid (nat (max_polling_tries c)))) \<and>
   ((k = 0 \<or> can_sleep (polling_wait_time c)) \<and> k < nat (max_polling_tries c) \<and>
    pending_polls w (polling_request c pid) k \<and>
    net w (sent w @ replicate (Suc k) (polling_request c pid)) = Inr resp \<and>
    status_code resp = 200 \<and> json_body resp = Some j \<and>
    getitem j ''access_token'' = Inr a \<and> getitem j ''refresh_token'' = Inr r \<and>
    getitem j ''startup_data'' = Inr sd \<and> getitem sd ''user'' = Inr u \<and>
    getitem u ''user_id'' = Inr uid \<longrightarrow>
      TgtgClient_start_polling c w pid =
        (Inr (),
         c\<lparr>access_token := a, refresh_token := r,
           last_time_token_refreshed := Some (now (after_polls w c pid k)),
           user_id := uid\<rparr>,
         (after_polls w c pid k)
           \<lparr>sent := sent w @ replicate (Suc k) (polling_request c pid)\<rparr>))"
proof (intro conjI impI)
  show "length (sent (snd (snd (TgtgClient_start_polling c w pid))))
     \<le> length (sent w) + nat (max_polling_tries c)"
    unfolding TgtgClient_start_polling_def by (rule polling_loop_sent)
next
  assume "(nat (max_polling_tries c) = 0 \<or> can_sleep (polling_wait_time c)) \<and>
    pending_polls w (polling_request c pid) (nat (max_polling_tries c))"
  then show "TgtgClient_start_polling c w pid =
        (Inl (TgtgPollingError
               [AStr (''Max retries (''
                        @ str_int (max_polling_tries c * polling_wait_time c)
                        @ '' seconds) reached. Try again.'')]),
         c, after_polls w c pid (nat (max_polling_tries c)))"
    using start_polling_exhausted [of c w pid] by (simp add: polling_timeout_message_def)
next
  assume h: "(k = 0 \<or> can_sleep (polling_wait_time c)) \<and> k < nat (max_polling_tries c) \<and>
    pending_polls w (polling_request c pid) k \<and>
    net w (sent w @ replicate (Suc k) (polling_request c pid)) = Inr resp \<and>
    status_code resp = 200 \<and> json_body resp = Some j \<and>
    getitem j ''access_token'' = Inr a \<and> getitem j ''refresh_token'' = Inr r \<and>
    getitem j ''startup_data'' = Inr sd \<and> getitem sd ''user'' = Inr u \<and>
    getitem u ''user_id'' = Inr uid"
  show "TgtgClient_start_polling c w pid =
        (Inr (),
         c\<lparr>access_token := a, refresh_token := r,
           last_time_token_refreshed := Some (now (after_polls w c pid k)),
           user_id := uid\<rparr>,
         (after_polls w c pid k)
           \<lparr>sent := sent w @ replicate (Suc k) (polling_request c pid)\<rparr>)"
    by (rule start_polling_confirmed) (use h in blast)+
qed

theorem start_polling_bounded_witness:
  "TgtgClient_start_polling email_client (world_of always_pending) (JStr ''poll-1'') =
     (Inl (TgtgPollingError [AStr ''Max retries (15 seconds) reached. Try again.'']),
      email_client,
      \<lparr>now = 1015000000, net = always_pending,
       sent = replicate 3 (polling_request email_client (JStr ''poll-1'')),
       slept = [5, 5, 5]\<rparr>) \<and>
   TgtgClient_start_polling email_client (world_of confirms_second) (JStr ''poll-1'') =
     (Inr (),
      email_client\<lparr>access_token := JStr ''at-1'', refresh_token := JStr ''rt-1'',
        last_time_token_refreshed := Some 1005000000, user_id := JStr ''4711''\<rparr>,
      \<lparr>now = 1005000000, net = confirms_second,
       sent = replicate 2 (polling_request email_client (JStr ''poll-1'')),
       slept = [5]\<rparr>) \<and>
   already_logged
     (fst (snd (TgtgClient_start_polling email_client (world_of confirms_second)
                  (JStr ''poll-1''))))"
proof -
  have p: "pending_polls (world_of always_pending) (polling_request email_client (JStr ''poll-1''))
             (nat (max_polling_tries email_client))"
    by (simp add: email_client_def world_of_def always_pending_def eval_nat_numeral)
  have q: "pending_polls (world_of confirms_second) (polling_request email_client (JStr ''poll-1''))
             (Suc 0)"
    by (simp add: world_of_def confirms_second_def)
  have s: "str_int 15 = ''15''"
    by (simp add: str_int_def digit_char_def)
  have t: "can_sleep (polling_wait_time email_client)"
    by (simp add: can_sleep_def email_client_def)
  have one: "TgtgClient_start_polling email_client (world_of always_pending) (JStr ''poll-1'') =
     (Inl (TgtgPollingError [AStr ''Max retries (15 seconds) reached. Try again.'']),
      email_client,
      \<lparr>now = 1015000000, net = always_pending,
       sent = replicate 3 (polling_request email_client (JStr ''poll-1'')),
       slept = [5, 5, 5]\<rparr>)"
    using start_polling_bounded [of email_client "world_of always_pending" "JStr ''poll-1''"] p t
    by (simp add: email_client_def world_of_def after_polls_def s eval_nat_numeral)
  have two: "TgtgClient_start_polling email_client (world_of confirms_second) (JStr ''poll-1'') =
     (Inr (),
      email_client\<lparr>access_token := JStr ''at-1'', refresh_token := JStr ''rt-1'',
        last_time_token_refreshed := Some 1005000000, user_id := JStr ''4711''\<rparr>,
      \<lparr>now = 1005000000, net = confirms_second,
       sent = replicate 2 (polling_request email_client (JStr ''poll-1'')),
       slept = [5]\<rparr>)"
    using start_polling_bounded [of email_client "world_of confirms_second" "JStr ''poll-1''"
        "Suc 0" "\<lparr>status_code = 200, content = ''{...}'', json_body = Some login_body\<rparr>"
        login_body "JStr ''at-1''" "JStr ''rt-1''"
        "JObj [(''user'', JObj [(''user_id'', JStr ''4711'')])]"
        "JObj [(''user_id'', JStr ''4711'')]" "JStr ''4711''"] q t
    by (simp add: email_client_def world_of_def after_polls_def confirms_second_def
        login_body_def eval_nat_numeral)
  show ?thesis
    by (simp add: one two already_logged_def)
qed

text \<open>
  C4 as stated fails: with a negative \<open>polling_wait_time\<close> the first "pending" answer is
  followed by a \<^verbatim>\<open>ValueError\<close> of \<^verbatim>\<open>time.sleep\<close>, and with a wait of 10000000000 seconds by
  an \<^verbatim>\<open>OverflowError\<close>; the loop does not go on, one request was posted out of three, and
  no \<^verbatim>\<open>TgtgPollingError\<close> is raised.
\<close>

theorem start_polling_wait_rejected:
  "TgtgClient_start_polling (email_client\<lparr>polling_wait_time := - 1\<rparr>)
       (world_of always_pending) (JStr ''poll-1'') =
     (Inl ValueError, email_client\<lparr>polling_wait_time := - 1\<rparr>,
      (world_of always_pending)
        \<lparr>sent := [polling_request (email_client\<lparr>polling_wait_time := - 1\<rparr>) (JStr ''poll-1'')]\<rparr>) \<and>
   TgtgClient_start_polling (email_client\<lparr>polling_wait_time := 10000000000\<rparr>)
       (world_of always_pending) (JStr ''poll-1'') =
     (Inl OverflowError, email_client\<lparr>polling_wait_time := 10000000000\<rparr>,
      (world_of always_pending)
        \<lparr>sent := [polling_request (email_client\<lparr>polling_wait_time := 10000000000\<rparr>)
                    (JStr ''poll-1'')]\<rparr>)"
  by (simp add: TgtgClient_start_polling_def email_client_def world_of_def always_pending_def
      TgtgClient_request_def sleep_def polling_request_def eval_nat_numeral)

section \<open>Login, refresh and construction\<close>

lemma auth_request_posted:
  "TgtgClient_request w AUTH_BY_EMAIL_ENDPOINT
      (JObj [(''device_type'', JStr (device_type c)), (''email'', email_json c)]) =
   (net w (sent w @ [auth_request c]), w\<lparr>sent := sent w @ [auth_request c]\<rparr>)"
  by (simp add: TgtgClient_request_def Let_def auth_request_def)

lemma login_not_logged:
  "\<not> already_logged c \<Longrightarrow> truthy (email_json c) \<Longrightarrow> TgtgClient_login c w = login_by_email c w"
  by (auto simp: TgtgClient_login_def already_logged_def)

text \<open>
  C5, as amended: a client without credentials posts its email, and the answer decides:
  state TERMS raises \<^verbatim>\<open>TgtgPollingError\<close> (with a message naming the email), state WAIT
  with a polling id starts polling, any other state under status 200 raises
  \<^verbatim>\<open>TgtgLoginError\<close>, status 429 raises \<^verbatim>\<open>TgtgAPIError\<close>, and any other status raises
  \<^verbatim>\<open>TgtgLoginError\<close> with the status code.
\<close>

theorem login_by_email_outcomes:
  assumes "\<not> already_logged c" and "truthy (email_json c)"
    and "net w (sent w @ [auth_request c]) = Inr resp"
  shows
   "(status_code resp = 200 \<and> json_body resp = Some j \<and>
     getitem j ''state'' = Inr (JStr ''TERMS'') \<longrightarrow>
       TgtgClient_login c w =
         (Inl (TgtgPollingError [AStr (terms_message c)]), c,
          w\<lparr>sent := sent w @ [auth_request c]\<rparr>)) \<and>
    (status_code resp = 200 \<and> json_body resp = Some j \<and>
     getitem j ''state'' = Inr (JStr ''WAIT'') \<and> getitem j ''polling_id'' = Inr pid \<longrightarrow>
       TgtgClient_login c w =
         TgtgClient_start_polling c (w\<lparr>sent := sent w @ [auth_request c]\<rparr>) pid) \<and>
    (status_code resp = 200 \<and> json_body resp = Some j \<and> getitem j ''state'' = Inr st \<and>
     st \<noteq> JStr ''TERMS'' \<and> st \<noteq> JStr ''WAIT'' \<longrightarrow>
       TgtgClient_login c w =
         (Inl (TgtgLoginError [AInt 200, AStr (content resp)]), c,
          w\<lparr>sent := sent w @ [auth_request c]\<rparr>)) \<and>
    (status_code resp = 429 \<longrightarrow>
       TgtgClient_login c w =
         (Inl (TgtgAPIError [AStr ''429 - Too many requests. Try again later.'']), c,
          w\<lparr>sent := sent w @ [auth_request c]\<rparr>)) \<and>
    (status_code resp \<noteq> 200 \<and> status_code resp \<noteq> 429 \<longrightarrow>
       TgtgClient_login c w =
         (Inl (TgtgLoginError [AInt (status_code resp), AStr (content resp)]), c,
          w\<lparr>sent := sent w @ [auth_request c]\<rparr>))"
  using assms
  by (simp add: login_not_logged login_by_email_def auth_request_posted)

theorem login_by_email_outcomes_witness:
  "TgtgClient_login email_client (world_of (says_state ''TERMS'')) =
     (Inl (TgtgPollingError [AStr (''This email me@example.org is not linked to a tgtg ''
             @ ''account. Please signup with this email first.'')]),
      email_client, (world_of (says_state ''TERMS''))\<lparr>sent := [auth_request email_client]\<rparr>) \<and>
   TgtgClient_login email_client (world_of wait_then_pending) =
     TgtgClient_start_polling email_client
       ((world_of wait_then_pending)\<lparr>sent := [auth_request email_client]\<rparr>) (JStr ''poll-1'') \<and>
   TgtgClient_login email_client (world_of (says_state ''LOCKED'')) =
     (Inl (TgtgLoginError [AInt 200, AStr ''{...}'']),
      email_client, (world_of (says_state ''LOCKED''))\<lparr>sent := [auth_request email_client]\<rparr>) \<and>
   TgtgClient_login email_client (world_of (says_status 429)) =
     (Inl (TgtgAPIError [AStr ''429 - Too many requests. Try again later.'']),
      email_client, (world_of (says_status 429))\<lparr>sent := [auth_request email_client]\<rparr>) \<and>
   TgtgClient_login email_client (world_of (says_status 503)) =
     (Inl (TgtgLoginError [AInt 503, AStr ''busy'']),
      email_client, (world_of (says_status 503))\<lparr>sent := [auth_request email_client]\<rparr>)"
proof -
  have c: "\<not> already_logged email_client" "truthy (email_json email_client)"
    by (simp_all add: already_logged_def email_json_def email_client_def)
  have n: "\<And>p. net (world_of p) (sent (world_of p) @ [auth_request email_client])
             = p [auth_request email_client]"
    by (simp add: world_of_def)
  note t = login_by_email_outcomes [OF c]
  show ?thesis
    using t [of "world_of (says_state ''TERMS'')" _
              "JObj [(''state'', JStr ''TERMS''), (''polling_id'', JStr ''poll-1'')]"]
      t [of "world_of wait_then_pending" _
              "JObj [(''state'', JStr ''WAIT''), (''polling_id'', JStr ''poll-1'')]"
              "JStr ''poll-1''"]
      t [of "world_of (says_state ''LOCKED'')" _
              "JObj [(''state'', JStr ''LOCKED''), (''polling_id'', JStr ''poll-1'')]" _
              "JStr ''LOCKED''"]
      t [of "world_of (says_status 429)"]
      t [of "world_of (says_status 503)"]
    by (simp add: n says_state_def says_status_def wait_then_pending_def terms_message_def
        email_client_def world_of_def)
qed

text \<open>
  C5 as stated fails: for the state TERMS the error is a \<^verbatim>\<open>TgtgPollingError\<close>, and for
  the status 429 it is a \<^verbatim>\<open>TgtgAPIError\<close>; neither is a \<^verbatim>\<open>TgtgLoginError\<close>.
\<close>

theorem login_terms_not_LoginError:
  "fst (TgtgClient_login email_client (world_of (says_state ''TERMS''))) =
     Inl (TgtgPollingError [AStr (''This email me@example.org is not linked to a tgtg ''
             @ ''account. Please signup with this email first.'')]) \<and>
   \<not> raises_LoginError (TgtgClient_login email_client (world_of (says_state ''TERMS''))) \<and>
   fst (TgtgClient_login email_client (world_of (says_status 429))) =
     Inl (TgtgAPIError [AStr ''429 - Too many requests. Try again later.'']) \<and>
   \<not> raises_LoginError (TgtgClient_login email_client (world_of (says_status 429)))"
  by (simp add: raises_LoginError_def TgtgClient_login_def login_by_email_def
      TgtgClient_request_def already_logged_def email_json_def email_client_def world_of_def
      says_state_def says_status_def terms_message_def AUTH_BY_EMAIL_ENDPOINT_def)

lemma timedelta_seconds_within_day:
  "0 \<le> d \<Longrightarrow> d < 86400000000 \<Longrightarrow> timedelta_seconds d = d div 1000000"
  by (simp add: timedelta_seconds_def)

lemma refresh_request_posted:
  "TgtgClient_request w REFRESH_ENDPOINT (JObj [(''refresh_token'', refresh_token c)]) =
   (net w (sent w @ [refresh_request c]), w\<lparr>sent := sent w @ [refresh_request c]\<rparr>)"
  by (simp add: TgtgClient_request_def Let_def refresh_request_def)

lemma refresh_token_fresh:
  "last_time_token_refreshed c = Some t \<Longrightarrow>
   timedelta_seconds (now w - t) \<le> access_token_lifetime c \<Longrightarrow>
   TgtgClient_refresh_token c w = (Inr (), c, w)"
  by (simp add: TgtgClient_refresh_token_def)

lemma refresh_token_refreshed:
  assumes "last_time_token_refreshed c = None \<or>
           (\<exists>t. last_time_token_refreshed c = Some t \<and>
                access_token_lifetime c < timedelta_seconds (now w - t))"
    and "net w (sent w @ [refresh_request c]) = Inr resp"
    and "status_code resp = 200" and "json_body resp = Some j"
    and "getitem j ''access_token'' = Inr a" and "getitem j ''refresh_token'' = Inr r"
  shows "TgtgClient_refresh_token c w =
           (Inr (), c\<lparr>access_token := a, refresh_token := r,
                      last_time_token_refreshed := Some (now w)\<rparr>,
            w\<lparr>sent := sent w @ [refresh_request c]\<rparr>)"
  using assms
  by (auto simp: TgtgClient_refresh_token_def refresh_request_posted store_refreshed_def)

lemma refresh_token_rejected:
  assumes "last_time_token_refreshed c = None \<or>
           (\<exists>t. last_time_token_refreshed c = Some t \<and>
                access_token_lifetime c < timedelta_seconds (now w - t))"
    and "net w (sent w @ [refresh_request c]) = Inr resp"
    and "status_code resp \<noteq> 200"
  shows "TgtgClient_refresh_token c w =
           (Inl (TgtgAPIError [AInt (status_code resp), AStr (content resp)]), c,
            w\<lparr>sent := sent w @ [refresh_request c]\<rparr>)"
  using assms
  by (auto simp: TgtgClient_refresh_token_def refresh_request_posted)

text \<open>
  C6 at a failing input: a client with credentials whose tokens were refreshed 25 hours
  ago, with a token lifetime of 4 hours. The elapsed time exceeds the lifetime, but
  \<^verbatim>\<open>login\<close> posts no request and changes nothing: the \<^verbatim>\<open>seconds\<close> of a \<^verbatim>\<open>timedelta\<close> of
  25 hours is 3600.
\<close>

theorem refresh_skipped_after_a_day:
  "already_logged stale_client \<and>
   last_time_token_refreshed stale_client = Some 0 \<and>
   access_token_lifetime stale_client = 14400 \<and>
   now day_later - 0 = 90000 * 1000000 \<and>
   TgtgClient_login stale_client day_later = (Inr (), stale_client, day_later)"
  by (simp add: TgtgClient_login_def TgtgClient_refresh_token_def already_logged_def
      email_json_def stale_client_def day_later_def timedelta_seconds_def)

text \<open>
  C7 as stated fails: constructing a client with no email and no credentials gives a
  client.
\<close>

theorem TgtgClient_init_never_fails:
  "TgtgClient_init None (Some 60) 14400 24 5 JNull JNull JNull 0 = Inr anonymous_client \<and>
   \<not> truthy (email_json anonymous_client) \<and> \<not> already_logged anonymous_client"
  by (simp add: TgtgClient_init_def anonymous_client_def email_json_def already_logged_def)

text \<open>
  C7, as amended: constructing a client never fails; for a client with neither an email
  nor all three credentials, \<^verbatim>\<open>login\<close> raises \<^verbatim>\<open>TGTGConfigurationError\<close>, posts no request
  and leaves the client as it was.
\<close>

theorem login_rejects_missing_credentials:
  "\<not> isl (TgtgClient_init e t l m p a r u k) \<and>
   (\<not> truthy (email_json c) \<and> \<not> already_logged c \<longrightarrow>
      TgtgClient_login c w =
        (Inl (TGTGConfigurationError
               [AStr ''You must provide at least email or access_token, refresh_token and user_id'']),
         c, w))"
  by (simp add: TgtgClient_init_def TgtgClient_login_def already_logged_def
      configuration_message_def)

theorem login_rejects_missing_credentials_witness:
  "\<not> isl (TgtgClient_init None (Some 60) 14400 24 5 JNull JNull JNull 0) \<and>
   TgtgClient_login anonymous_client (world_of always_pending) =
     (Inl (TGTGConfigurationError
            [AStr ''You must provide at least email or access_token, refresh_token and user_id'']),
      anonymous_client, world_of always_pending) \<and>
   sent (snd (snd (TgtgClient_login anonymous_client (world_of always_pending)))) = []"
  using login_rejects_missing_credentials [of None "Some 60" 14400 24 5 JNull JNull JNull 0
      anonymous_client "world_of always_pending"]
  by (simp add: anonymous_client_def email_json_def already_logged_def world_of_def)

section \<open>Webhook templates\<close>

lemma word_char_facts:
  "\<not> is_word_char (CHR ''$'')" "\<not> is_word_char (CHR ''}'')" "\<not> is_word_char (CHR ''{'')"
  by (simp_all add: is_word_char_def word_chars_def)

lemma placeholder_Cons: "placeholder n = CHR ''$'' # CHR ''{'' # CHR ''{'' # n @ ''}}''"
  by (simp add: placeholder_def)

lemma match_here_Some:
  assumes "match_here s = Some (w, r)"
  shows "s = placeholder w @ r" and "w \<noteq> []" and "list_all is_word_char w"
proof -
  let ?t = "drop 3 s"
  let ?d = "dropWhile is_word_char ?t"
  from assms have o: "take 3 s = ''${{''" and w: "w = takeWhile is_word_char ?t"
    and c: "take 2 ?d = ''}}''" and r: "r = drop 2 ?d" and n: "w \<noteq> []"
    by (auto simp: match_here_def Let_def split: if_splits)
  have "s = take 3 s @ ?t" by simp
  also have "?t = w @ ?d" by (simp add: w)
  also have "?d = take 2 ?d @ r" by (simp add: r)
  finally show "s = placeholder w @ r"
    by (simp add: o c placeholder_def)
  show "w \<noteq> []" by (rule n)
  show "list_all is_word_char w"
    unfolding w list_all_iff by (auto dest: set_takeWhileD)
qed

lemma flatten_parse: "flatten (parse t) = t"
proof (induction t rule: parse.induct)
  case 1
  show ?case by simp
next
  case (2 c cs)
  show ?case
  proof (cases "match_here (c # cs)")
    case None
    then show ?thesis using 2 by simp
  next
    case (Some x)
    obtain w r where x: "x = (w, r)" by (cases x)
    have r: "flatten (parse r) = r" using 2 Some x by metis
    have p: "parse (c # cs) = Ph w # parse r" using Some x by simp
    have "c # cs = placeholder w @ r"
      using Some x by (intro match_here_Some(1)) simp
    then have e: "placeholder w @ r = c # cs" by (rule sym)
    show ?thesis
      by (simp only: p flatten.simps r e)
  qed
qed

lemma names_of_parse: "names_of (parse t) = finditer t"
proof (induction t rule: parse.induct)
  case 1
  show ?case by simp
next
  case (2 c cs)
  show ?case
  proof (cases "match_here (c # cs)")
    case None
    then show ?thesis using 2 by simp
  next
    case (Some x)
    obtain w r where x: "x = (w, r)" by (cases x)
    have "names_of (parse r) = finditer r" using 2 Some x by metis
    then show ?thesis using Some x by simp
  qed
qed

lemma named_parse: "list_all named (parse t)"
proof (induction t rule: parse.induct)
  case 1
  show ?case by simp
next
  case (2 c cs)
  show ?case
  proof (cases "match_here (c # cs)")
    case None
    then show ?thesis using 2 by simp
  next
    case (Some x)
    obtain w r where x: "x = (w, r)" by (cases x)
    have "list_all named (parse r)" using 2 Some x by metis
    then show ?thesis
      using Some x match_here_Some(2,3) [of "c # cs" w r] by simp
  qed
qed

lemma fill_parse: "concat (map (fill it) (parse t)) = substitute it t"
proof (induction t rule: parse.induct)
  case 1
  show ?case by simp
next
  case (2 c cs)
  show ?case
  proof (cases "match_here (c # cs)")
    case None
    then show ?thesis using 2 by simp
  next
    case (Some x)
    obtain w r where x: "x = (w, r)" by (cases x)
    have "concat (map (fill it) (parse r)) = substitute it r" using 2 Some x by metis
    then show ?thesis using Some x by simp
  qed
qed

lemma opener_at: "take 3 (drop i s) = ''${{'' \<Longrightarrow> has_opener s"
proof (induction s arbitrary: i)
  case Nil
  then show ?case by simp
next
  case (Cons c cs)
  show ?case
  proof (cases i)
    case 0
    then show ?thesis using Cons.prems by simp
  next
    case (Suc j)
    then have "take 3 (drop j cs) = ''${{''" using Cons.prems by simp
    then have "has_opener cs" by (rule Cons.IH)
    then show ?thesis by simp
  qed
qed

lemma has_opener_suffix: "has_opener b \<Longrightarrow> has_opener (a @ b)"
proof (induction a)
  case Nil
  then show ?case by simp
next
  case (Cons c a)
  then have "has_opener (a @ b)" by simp
  then show ?case by simp
qed

lemma tidy_no_opener: "\<not> has_opener (flatten L) \<Longrightarrow> tidy L"
proof (induction L)
  case Nil
  show ?case by simp
next
  case (Cons seg L)
  show ?case
  proof (cases seg)
    case (Lit s)
    have rest: "\<not> has_opener (flatten L)"
      using Cons.prems Lit has_opener_suffix [of "flatten L" s] by auto
    have "\<And>i. take 3 (drop i (s @ flatten L)) \<noteq> ''${{''"
      using Cons.prems Lit opener_at [of _ "s @ flatten L"] by auto
    then show ?thesis
      using Cons.IH [OF rest] Lit by (simp add: list_all_iff)
  next
    case (Ph n)
    have "\<not> has_opener (flatten L)"
      using Cons.prems Ph has_opener_suffix [of "flatten L" "placeholder n"] by auto
    then show ?thesis using Cons.IH Ph by simp
  qed
qed

lemma takeWhile_word:
  "list_all is_word_char name \<Longrightarrow> takeWhile is_word_char (name @ CHR ''}'' # t) = name"
  by (induction name) (simp_all add: word_char_facts)

lemma replace_no_opener:
  "(\<And>i. i < length s \<Longrightarrow> take 3 (drop i (s @ rest)) \<noteq> ''${{'') \<Longrightarrow>
   str_replace (placeholder n) v (s @ rest) = s @ str_replace (placeholder n) v rest"
proof (induction s)
  case Nil
  show ?case by simp
next
  case (Cons c s)
  have first: "take 3 (c # s @ rest) \<noteq> ''${{''"
    using Cons.prems [of 0] by simp
  have "take (length (placeholder n)) (c # s @ rest) \<noteq> placeholder n"
  proof
    assume a: "take (length (placeholder n)) (c # s @ rest) = placeholder n"
    have "3 \<le> length (placeholder n)"
      by (simp add: placeholder_def)
    then have "take 3 (c # s @ rest) = take 3 (take (length (placeholder n)) (c # s @ rest))"
      by (simp only: take_take min_absorb1)
    also have "\<dots> = ''${{''"
      by (simp only: a) (simp add: placeholder_def)
    finally show False using first by simp
  qed
  moreover have "str_replace (placeholder n) v (s @ rest) = s @ str_replace (placeholder n) v rest"
  proof (rule Cons.IH)
    fix i
    assume "i < length s"
    then show "take 3 (drop i (s @ rest)) \<noteq> ''${{''"
      using Cons.prems [of "Suc i"] by simp
  qed
  ultimately show ?case by simp
qed

lemma replace_plain:
  "CHR ''$'' \<notin> set s \<Longrightarrow>
   str_replace (placeholder n) v (s @ rest) = s @ str_replace (placeholder n) v rest"
  by (induction s) (auto simp: placeholder_Cons)

lemma replace_hit:
  "str_replace (placeholder n) v (placeholder n @ rest) = v @ str_replace (placeholder n) v rest"
proof -
  have "str_replace (placeholder n) v (CHR ''$'' # tl (placeholder n @ rest)) =
          (if placeholder n \<noteq> [] \<and>
              take (length (placeholder n)) (CHR ''$'' # tl (placeholder n @ rest)) = placeholder n
           then v @ str_replace (placeholder n) v
                  (drop (length (placeholder n)) (CHR ''$'' # tl (placeholder n @ rest)))
           else CHR ''$'' # str_replace (placeholder n) v (tl (placeholder n @ rest)))"
    by (rule str_replace.simps(2))
  moreover have "CHR ''$'' # tl (placeholder n @ rest) = placeholder n @ rest"
    by (simp add: placeholder_Cons)
  ultimately show ?thesis
    by (simp add: placeholder_Cons)
qed

lemma placeholder_prefix_same:
  assumes "list_all is_word_char n" and "list_all is_word_char m"
    and "take (length (placeholder n)) (placeholder m @ rest) = placeholder n"
  shows "m = n"
proof -
  have "placeholder m @ rest = placeholder n @ drop (length (placeholder n)) (placeholder m @ rest)"
    using assms(3) append_take_drop_id [of "length (placeholder n)" "placeholder m @ rest"]
    by simp
  then obtain t where "m @ CHR ''}'' # CHR ''}'' # rest = n @ CHR ''}'' # t"
    by (auto simp: placeholder_Cons)
  then have "takeWhile is_word_char (m @ CHR ''}'' # CHR ''}'' # rest)
               = takeWhile is_word_char (n @ CHR ''}'' # t)"
    by simp
  then show ?thesis
    by (simp add: takeWhile_word assms)
qed

lemma replace_miss:
  assumes "list_all is_word_char n" and "list_all is_word_char m" and "m \<noteq> n"
  shows "str_replace (placeholder n) v (placeholder m @ rest)
           = placeholder m @ str_replace (placeholder n) v rest"
proof -
  let ?inner = "CHR ''{'' # CHR ''{'' # m @ ''}}''"
  have whole: "placeholder m @ rest = CHR ''$'' # ?inner @ rest"
    by (simp add: placeholder_Cons)
  have no: "take (length (placeholder n)) (CHR ''$'' # ?inner @ rest) \<noteq> placeholder n"
    using placeholder_prefix_same [OF assms(1,2), of rest] assms(3) whole by metis
  have free: "CHR ''$'' \<notin> set ?inner"
    using assms(2) by (auto simp: list_all_iff word_char_facts)
  have "str_replace (placeholder n) v (CHR ''$'' # ?inner @ rest) =
          CHR ''$'' # str_replace (placeholder n) v (?inner @ rest)"
    using no by (subst str_replace.simps(2)) simp
  also have "\<dots> = CHR ''$'' # ?inner @ str_replace (placeholder n) v rest"
    using replace_plain [OF free] by simp
  finally show ?thesis
    by (simp add: placeholder_Cons [of m])
qed

lemma replace_flatten:
  "tidy L \<Longrightarrow> list_all named L \<Longrightarrow> list_all is_word_char n \<Longrightarrow>
   str_replace (placeholder n) v (flatten L)
     = flatten (map (\<lambda>seg. if seg = Ph n then Lit v else seg) L)"
proof (induction L)
  case Nil
  show ?case by simp
next
  case (Cons seg L)
  have ih: "str_replace (placeholder n) v (flatten L)
              = flatten (map (\<lambda>seg. if seg = Ph n then Lit v else seg) L)"
    using Cons by (cases seg) simp_all
  show ?case
  proof (cases seg)
    case (Lit s)
    have "\<And>i. i < length s \<Longrightarrow> take 3 (drop i (s @ flatten L)) \<noteq> ''${{''"
      using Cons.prems(1) Lit by (simp add: list_all_iff)
    then show ?thesis
      using Lit ih by (simp add: replace_no_opener)
  next
    case (Ph m)
    show ?thesis
    proof (cases "m = n")
      case True
      then show ?thesis using Ph ih by (simp add: replace_hit)
    next
      case False
      then show ?thesis using Ph ih Cons.prems by (simp add: replace_miss)
    qed
  qed
qed

lemma fill_names_single:
  "Item_getattr it n = None \<Longrightarrow> fill_names it {n} = (\<lambda>seg. seg)"
  "Item_getattr it n = Some v \<Longrightarrow>
     fill_names it {n} = (\<lambda>seg. if seg = Ph n then Lit v else seg)"
  by (rule ext, case_tac seg, simp_all)+

lemma fill_names_empty: "map (fill_names it {}) L = L"
  by (rule map_idI) (case_tac x; simp)

lemma render_alt: "render it t = foldl (render_step it) t (finditer t)"
  by (simp add: render_def render_step_def [abs_def])

lemma step_flatten:
  assumes "tidy L" and "list_all named L" and "list_all is_word_char n"
  shows "render_step it (flatten L) n = flatten (map (fill_names it {n}) L)"
proof (cases "Item_getattr it n")
  case None
  show ?thesis by (simp add: render_step_def None fill_names_single(1) [OF None])
next
  case (Some v)
  show ?thesis
    by (simp add: render_step_def Some replace_flatten [OF assms] fill_names_single(2) [OF Some])
qed

lemma named_fill_names: "list_all named L \<Longrightarrow> list_all named (map (fill_names it S) L)"
proof (induction L)
  case Nil
  show ?case by simp
next
  case (Cons seg L)
  then show ?case by (cases seg) (auto split: option.splits)
qed

lemma fill_names_twice:
  "fill_names it T (fill_names it S seg) = fill_names it (S \<union> T) seg"
  by (cases seg) (auto split: option.splits)

lemma flatten_filled:
  "set (names_of segs) \<subseteq> S \<Longrightarrow>
   flatten (map (fill_names it S) segs) = concat (map (fill it) segs)"
  by (induction segs rule: names_of.induct) (auto split: option.splits)

lemma names_of_words: "list_all named L \<Longrightarrow> list_all (list_all is_word_char) (names_of L)"
  by (induction L rule: names_of.induct) simp_all

lemma filled_prefix:
  "S \<subseteq> T \<Longrightarrow> flatten (map (fill_names it S) L) = p @ r \<Longrightarrow> CHR ''$'' \<notin> set p \<Longrightarrow>
   \<exists>r'. flatten (map (fill_names it T) L) = p @ r'"
proof (induction L arbitrary: p r)
  case Nil
  then show ?case by simp
next
  case (Cons seg L)
  have lit: "\<exists>r'. s @ flatten (map (fill_names it T) L) = p @ r'"
    if eq: "s @ flatten (map (fill_names it S) L) = p @ r" for s
  proof -
    from eq obtain u where
      "(s = p @ u \<and> u @ flatten (map (fill_names it S) L) = r) \<or>
       (s @ u = p \<and> flatten (map (fill_names it S) L) = u @ r)"
      by (auto simp: append_eq_append_conv2)
    then show ?thesis
    proof
      assume "s = p @ u \<and> u @ flatten (map (fill_names it S) L) = r"
      then show ?thesis by simp
    next
      assume a: "s @ u = p \<and> flatten (map (fill_names it S) L) = u @ r"
      then have "CHR ''$'' \<notin> set u" using Cons.prems(3) by auto
      with Cons.IH [OF Cons.prems(1), of u r] a
      obtain r' where "flatten (map (fill_names it T) L) = u @ r'" by auto
      then show ?thesis using a by auto
    qed
  qed
  show ?case
  proof (cases seg)
    case (Lit s)
    then show ?thesis using lit [of s] Cons.prems(2) by simp
  next
    case (Ph n)
    show ?thesis
    proof (cases "n \<in> S \<and> Item_getattr it n \<noteq> None")
      case True
      then obtain v where v: "Item_getattr it n = Some v" by auto
      have "n \<in> T" using True Cons.prems(1) by auto
      then show ?thesis
        using lit [of v] Cons.prems(2) Ph True v by simp
    next
      case False
      then have "fill_names it S (Ph n) = Ph n" by (auto split: option.splits)
      then have "placeholder n @ flatten (map (fill_names it S) L) = p @ r"
        using Cons.prems(2) Ph by simp
      then have "p = []"
        using Cons.prems(3) by (cases p) (auto simp: placeholder_Cons)
      then show ?thesis by simp
    qed
  qed
qed

lemma opener_carries:
  assumes q: "\<And>p r. XS = p @ r \<Longrightarrow> CHR ''$'' \<notin> set p \<Longrightarrow> \<exists>r'. XT = p @ r'"
    and i: "i < length s" and o: "take 3 (drop i (s @ XS)) = ''${{''"
  shows "take 3 (drop i (s @ XT)) = ''${{''"
proof -
  obtain a d where d: "drop i s = a # d"
    using i by (cases "drop i s") auto
  have x: "\<And>X. drop i (s @ X) = a # d @ X"
    using i d by simp
  have o': "take 3 (a # d @ XS) = ''${{''"
    using o by (simp only: x)
  have goal: "take 3 (a # d @ XT) = ''${{''"
  proof (cases d)
    case Nil
    from o' have a: "a = CHR ''$''" and t: "take 2 XS = ''{{''"
      by (simp_all add: Nil)
    have "XS = ''{{'' @ drop 2 XS"
      using append_take_drop_id [of 2 XS] t by simp
    then obtain r' where "XT = ''{{'' @ r'"
      using q [of "''{{''" "drop 2 XS"] by auto
    then show ?thesis by (simp add: Nil a)
  next
    case (Cons b d')
    show ?thesis
    proof (cases d')
      case Nil
      from o' have a: "a = CHR ''$''" "b = CHR ''{''" and t: "take 1 XS = ''{''"
        by (simp_all add: \<open>d = b # d'\<close> Nil)
      have "XS = ''{'' @ drop 1 XS"
        using t by (cases XS) auto
      then obtain r' where "XT = ''{'' @ r'"
        using q [of "''{''" "drop 1 XS"] by auto
      then show ?thesis by (simp add: \<open>d = b # d'\<close> Nil a)
    next
      case (Cons c d'')
      then show ?thesis using o' \<open>d = b # d'\<close> by simp
    qed
  qed
  show ?thesis
    by (simp only: x goal)
qed

lemma tidy_Lit:
  "tidy (Lit s # segs) =
     ((\<forall>i < length s. take 3 (drop i (s @ flatten segs)) \<noteq> ''${{'') \<and> tidy segs)"
  by (auto simp add: list_all_iff)

lemma tidy_Ph: "tidy (Ph n # segs) = tidy segs"
  by simp

lemma tidy_fewer:
  "S \<subseteq> T \<Longrightarrow> tidy (map (fill_names it T) L) \<Longrightarrow> tidy (map (fill_names it S) L)"
proof (induction L)
  case Nil
  show ?case by simp
next
  case (Cons seg L)
  let ?XS = "flatten (map (fill_names it S) L)"
  let ?XT = "flatten (map (fill_names it T) L)"
  have rest_T: "tidy (map (fill_names it T) L)"
  proof (cases "fill_names it T seg")
    case (Lit s)
    have "tidy (Lit s # map (fill_names it T) L)"
      using Cons.prems(2) by (simp only: list.map Lit)
    then show ?thesis by (simp only: tidy_Lit)
  next
    case (Ph n)
    have "tidy (Ph n # map (fill_names it T) L)"
      using Cons.prems(2) by (simp only: list.map Ph)
    then show ?thesis by (simp only: tidy_Ph)
  qed
  have rest: "tidy (map (fill_names it S) L)"
    by (rule Cons.IH [OF Cons.prems(1) rest_T])
  have car: "\<exists>r'. ?XT = p @ r'" if "?XS = p @ r" and "CHR ''$'' \<notin> set p" for p r
    using Cons.prems(1) that by (rule filled_prefix)
  have lit: "tidy (Lit s # map (fill_names it S) L)"
    if t: "tidy (Lit s # map (fill_names it T) L)" for s
  proof -
    have "take 3 (drop i (s @ ?XS)) \<noteq> ''${{''" if i: "i < length s" for i
    proof
      assume a: "take 3 (drop i (s @ ?XS)) = ''${{''"
      have "take 3 (drop i (s @ ?XT)) = ''${{''"
        using car i a by (rule opener_carries)
      moreover have "take 3 (drop i (s @ ?XT)) \<noteq> ''${{''"
        using t i unfolding tidy_Lit by blast
      ultimately show False by (rule notE [rotated])
    qed
    then show ?thesis using rest unfolding tidy_Lit by blast
  qed
  have same: "fill_names it S seg = fill_names it T seg \<or> (\<exists>n. fill_names it S seg = Ph n)"
    using Cons.prems(1) by (cases seg) (auto split: option.splits)
  show ?case
  proof (cases "fill_names it S seg")
    case (Lit s)
    then have "fill_names it T seg = Lit s" using same by auto
    then have "tidy (Lit s # map (fill_names it T) L)"
      using Cons.prems(2) by (simp only: list.map)
    then have "tidy (Lit s # map (fill_names it S) L)" by (rule lit)
    then show ?thesis by (simp only: list.map Lit)
  next
    case (Ph n)
    show ?thesis using rest by (simp only: list.map Ph tidy_Ph)
  qed
qed

lemma fold_flatten:
  "list_all named L \<Longrightarrow> list_all (list_all is_word_char) ns \<Longrightarrow>
   (\<And>S. S \<subseteq> S0 \<union> set ns \<Longrightarrow> tidy (map (fill_names it S) L)) \<Longrightarrow>
   foldl (render_step it) (flatten (map (fill_names it S0) L)) ns
     = flatten (map (fill_names it (S0 \<union> set ns)) L)"
proof (induction ns arbitrary: S0)
  case Nil
  show ?case by simp
next
  case (Cons n ns)
  have t: "tidy (map (fill_names it S0) L)"
    by (rule Cons.prems(3)) auto
  have "render_step it (flatten (map (fill_names it S0) L)) n
          = flatten (map (fill_names it {n}) (map (fill_names it S0) L))"
    using Cons.prems(2) by (intro step_flatten t named_fill_names Cons.prems(1)) simp
  also have "\<dots> = flatten (map (fill_names it (S0 \<union> {n})) L)"
    by (simp add: fill_names_twice comp_def)
  finally have step: "render_step it (flatten (map (fill_names it S0) L)) n
          = flatten (map (fill_names it (S0 \<union> {n})) L)" .
  have "foldl (render_step it) (flatten (map (fill_names it (S0 \<union> {n})) L)) ns
          = flatten (map (fill_names it ((S0 \<union> {n}) \<union> set ns)) L)"
  proof (rule Cons.IH [OF Cons.prems(1)])
    show "list_all (list_all is_word_char) ns" using Cons.prems(2) by simp
    fix S
    assume "S \<subseteq> S0 \<union> {n} \<union> set ns"
    then show "tidy (map (fill_names it S) L)"
      by (intro Cons.prems(3)) auto
  qed
  then show ?case
    by (simp add: step Un_assoc)
qed

lemma render_expected:
  assumes "\<not> has_opener (substitute it t)"
  shows "render it t = substitute it t"
proof -
  let ?L = "parse t"
  let ?T = "set (finditer t)"
  have full: "flatten (map (fill_names it ?T) ?L) = substitute it t"
    by (simp add: flatten_filled names_of_parse fill_parse)
  have "tidy (map (fill_names it ?T) ?L)"
    by (rule tidy_no_opener) (simp add: full assms)
  then have fewer: "\<And>S. S \<subseteq> ?T \<Longrightarrow> tidy (map (fill_names it S) ?L)"
    by (rule tidy_fewer [rotated])
  have "render it t = foldl (render_step it) (flatten (map (fill_names it {}) ?L)) (finditer t)"
    by (simp add: render_alt fill_names_empty flatten_parse)
  also have "\<dots> = flatten (map (fill_names it ({} \<union> ?T)) ?L)"
  proof (rule fold_flatten)
    show "list_all named ?L" by (rule named_parse)
    show "list_all (list_all is_word_char) (finditer t)"
      using names_of_words [OF named_parse, of t] by (simp add: names_of_parse)
    fix S
    assume "S \<subseteq> {} \<union> ?T"
    then show "tidy (map (fill_names it S) ?L)" by (intro fewer) simp
  qed
  finally show ?thesis by (simp add: full)
qed

lemma substitute_placeholder:
  assumes "name \<noteq> []" and "list_all is_word_char name"
  shows "substitute it (placeholder name @ r) =
           (case Item_getattr it name of Some v \<Rightarrow> v | None \<Rightarrow> placeholder name) @ substitute it r"
proof -
  have t: "takeWhile is_word_char (name @ CHR ''}'' # CHR ''}'' # r) = name"
    by (rule takeWhile_word [OF assms(2)])
  have d: "dropWhile is_word_char (name @ CHR ''}'' # CHR ''}'' # r) = CHR ''}'' # CHR ''}'' # r"
    using assms(2) by (induction name) (simp_all add: word_char_facts)
  have m: "match_here (CHR ''$'' # CHR ''{'' # CHR ''{'' # name @ CHR ''}'' # CHR ''}'' # r)
             = Some (name, r)"
    by (simp add: match_here_def t d assms(1))
  have "placeholder name @ r = CHR ''$'' # CHR ''{'' # CHR ''{'' # name @ CHR ''}'' # CHR ''}'' # r"
    by (simp add: placeholder_Cons)
  then show ?thesis
    by (simp add: m)
qed

lemma WebHook_new_unknown:
  assumes "enabled' cfg" and "url cfg = Some u" and "body cfg = Some b"
    and "name \<in> set (finditer b) \<union> set (finditer u)" and "name \<notin> set ATTRS"
  shows "WebHook_new http cfg = Inl WebHookConfigurationError"
proof -
  have "unknown_placeholder b \<or> unknown_placeholder u"
    using assms(4,5) by (auto simp: unknown_placeholder_def list_ex_iff)
  then have "WebHook_init cfg = Inl WebHookConfigurationError"
    using assms(2,3) by (auto simp: WebHook_init_def)
  then show ?thesis
    using assms(1) by (simp add: WebHook_new_def)
qed

lemma WebHook_send_is_http:
  assumes "WebHook_new http cfg = Inr n" and "enabled n"
  shows "\<exists>req. send_impl n it w = http req w"
proof -
  have e: "enabled' cfg" and i: "WebHook_init cfg = Inr ()"
    and n: "send_impl n = WebHook_send http cfg"
    using assms by (auto simp: WebHook_new_def split: if_splits sum.splits)
  from i obtain u where "url cfg = Some u"
    by (auto simp: WebHook_init_def split: if_splits)
  then show ?thesis
    unfolding n WebHook_send_def by (auto split: option.splits)
qed

text \<open>
  C8, as amended: \<open>display_name\<close> and \<open>items_available\<close> stand for the item's display name
  and the decimal form of its count, and the text a template stands for has them in the
  place of \<^verbatim>\<open>${{display_name}}\<close> and \<^verbatim>\<open>${{items_available}}\<close>. Whenever that text has no
  \<^verbatim>\<open>${{\<close> left in it, it is what the loop of \<^verbatim>\<open>_send\<close> renders; so the request sent carries
  the URL and the body with every placeholder replaced by the value of its attribute (with
  no body, or an empty one, it carries no data and no length). When the body is configured
  and the body or the URL has a placeholder with a name outside \<^verbatim>\<open>Item.ATTRS\<close>,
  constructing the enabled notifier fails with \<^verbatim>\<open>WebHookConfigurationError\<close>, so there is no
  notifier to send with. And what the send of a constructed, enabled notifier returns or
  raises is what the HTTP exchange returns or raises: no placeholder raises at send time.
\<close>

theorem webhook_templates:
  "Item_getattr it ''display_name'' = Some (display_name it) \<and>
   Item_getattr it ''items_available'' = Some (str_int (items_available it)) \<and>
   substitute it (''${{display_name}}'' @ r) = display_name it @ substitute it r \<and>
   substitute it (''${{items_available}}'' @ r) = str_int (items_available it) @ substitute it r \<and>
   (\<not> has_opener (substitute it t) \<longrightarrow> render it t = substitute it t) \<and>
   (url cfg = Some u \<and> body cfg = Some b \<and> b \<noteq> [] \<and>
    \<not> has_opener (substitute it u) \<and> \<not> has_opener (substitute it b) \<longrightarrow>
      WebHook_send http cfg it w =
        http \<lparr>http_method = method' cfg, http_url = substitute it u,
              http_timeout = timeout' cfg, http_data = Some (substitute it b),
              http_headers = [(''Content-Type'', type' cfg),
                (''Content-Length'', str_int (int (length (substitute it b))))]\<rparr> w) \<and>
   (url cfg = Some u \<and> (body cfg = None \<or> body cfg = Some []) \<and>
    \<not> has_opener (substitute it u) \<longrightarrow>
      WebHook_send http cfg it w =
        http \<lparr>http_method = method' cfg, http_url = substitute it u,
              http_timeout = timeout' cfg, http_data = None,
              http_headers = [(''Content-Type'', type' cfg)]\<rparr> w) \<and>
   (enabled' cfg \<and> url cfg = Some u \<and> body cfg = Some b \<and>
    name \<in> set (finditer b) \<union> set (finditer u) \<and> name \<notin> set ATTRS \<longrightarrow>
      WebHook_new http cfg = Inl WebHookConfigurationError) \<and>
   (WebHook_new http cfg = Inr n \<and> enabled n \<longrightarrow> (\<exists>req. send_impl n it w = http req w))"
proof (intro conjI impI)
  show a: "Item_getattr it ''display_name'' = Some (display_name it)"
    by (simp add: Item_getattr_def)
  show b: "Item_getattr it ''items_available'' = Some (str_int (items_available it))"
    by (simp add: Item_getattr_def)
  have "substitute it (placeholder ''display_name'' @ r) = display_name it @ substitute it r"
    by (subst substitute_placeholder) (simp_all add: a is_word_char_def word_chars_def)
  then show "substitute it (''${{display_name}}'' @ r) = display_name it @ substitute it r"
    by (simp add: placeholder_def)
  have "substitute it (placeholder ''items_available'' @ r)
          = str_int (items_available it) @ substitute it r"
    by (subst substitute_placeholder) (simp_all add: b is_word_char_def word_chars_def)
  then show "substitute it (''${{items_available}}'' @ r)
          = str_int (items_available it) @ substitute it r"
    by (simp add: placeholder_def)
next
  assume "\<not> has_opener (substitute it t)"
  then show "render it t = substitute it t"
    by (rule render_expected)
next
  assume h: "url cfg = Some u \<and> body cfg = Some b \<and> b \<noteq> [] \<and>
    \<not> has_opener (substitute it u) \<and> \<not> has_opener (substitute it b)"
  then have "render it u = substitute it u" and "render it b = substitute it b"
    by (simp_all add: render_expected)
  then show "WebHook_send http cfg it w =
        http \<lparr>http_method = method' cfg, http_url = substitute it u,
              http_timeout = timeout' cfg, http_data = Some (substitute it b),
              http_headers = [(''Content-Type'', type' cfg),
                (''Content-Length'', str_int (int (length (substitute it b))))]\<rparr> w"
    using h by (simp add: WebHook_send_def)
next
  assume h: "url cfg = Some u \<and> (body cfg = None \<or> body cfg = Some []) \<and>
    \<not> has_opener (substitute it u)"
  then have "render it u = substitute it u"
    by (simp add: render_expected)
  then show "WebHook_send http cfg it w =
        http \<lparr>http_method = method' cfg, http_url = substitute it u,
              http_timeout = timeout' cfg, http_data = None,
              http_headers = [(''Content-Type'', type' cfg)]\<rparr> w"
    using h by (auto simp add: WebHook_send_def)
next
  assume "enabled' cfg \<and> url cfg = Some u \<and> body cfg = Some b \<and>
    name \<in> set (finditer b) \<union> set (finditer u) \<and> name \<notin> set ATTRS"
  then show "WebHook_new http cfg = Inl WebHookConfigurationError"
    using WebHook_new_unknown [of cfg u b name http] by blast
next
  assume "WebHook_new http cfg = Inr n \<and> enabled n"
  then show "\<exists>req. send_impl n it w = http req w"
    using WebHook_send_is_http [of http cfg n it w] by blast
qed

theorem webhook_templates_witness:
  "WebHook_send posts (hook_config url_template (Some body_template)) (bag ''A'' 3) [] =
     (None, [\<lparr>http_method = Some ''POST'', http_url = ''https://example.org/hook?id=A'',
              http_timeout = 60, http_data = Some ''Bakery: 3 bags, $3.99 each'',
              http_headers = [(''Content-Type'', ''text/plain''), (''Content-Length'', ''26'')]\<rparr>]) \<and>
   WebHook_send posts (hook_config url_template None) (bag ''A'' 3) [] =
     (None, [\<lparr>http_method = Some ''POST'', http_url = ''https://example.org/hook?id=A'',
              http_timeout = 60, http_data = None,
              http_headers = [(''Content-Type'', ''text/plain'')]\<rparr>]) \<and>
   render (bag ''A'' 3) body_template = ''Bakery: 3 bags, $3.99 each'' \<and>
   WebHook_new posts (hook_config ''https://example.org/hook'' (Some ''${{bogus}} bags''))
     = Inl WebHookConfigurationError \<and>
   WebHook_new posts (hook_config url_template (Some body_template))
     = Inr \<lparr>enabled = True, send_impl = WebHook_send posts (hook_config url_template (Some body_template))\<rparr> \<and>
   (\<exists>req. WebHook_send posts (hook_config url_template (Some body_template)) (bag ''A'' 3) []
            = posts req [])"
proof -
  let ?it = "bag ''A'' 3"
  let ?good = "hook_config url_template (Some body_template)"
  let ?bare = "hook_config url_template None"
  let ?bad = "hook_config ''https://example.org/hook'' (Some ''${{bogus}} bags'')"
  let ?n = "\<lparr>enabled = True, send_impl = WebHook_send posts ?good\<rparr>"
  note ev = match_here_def is_word_char_def word_chars_def Item_getattr_def bag_def
    str_int_def digit_char_def placeholder_def
  have s: "str_int 26 = ''26''"
    by (simp add: str_int_def digit_char_def)
  have u: "substitute ?it url_template = ''https://example.org/hook?id=A''"
    by (simp add: url_template_def ev)
  have b: "substitute ?it body_template = ''Bakery: 3 bags, $3.99 each''"
    by (simp add: body_template_def ev)
  have f: "finditer ''${{bogus}} bags'' = [''bogus'']"
    by (simp add: match_here_def is_word_char_def word_chars_def)
  have fu: "finditer url_template = [''item_id'']"
    by (simp add: url_template_def match_here_def is_word_char_def word_chars_def)
  have fb: "finditer body_template = [''display_name'', ''items_available'', ''price'']"
    by (simp add: body_template_def match_here_def is_word_char_def word_chars_def)
  have ou: "\<not> has_opener (substitute ?it url_template)"
    by (simp add: u)
  have ob: "\<not> has_opener (substitute ?it body_template)"
    by (simp add: b)
  have nb: "body_template \<noteq> []" and nu: "url_template \<noteq> []"
    by (simp_all add: body_template_def url_template_def)
  have "WebHook_send posts ?good ?it [] =
          posts \<lparr>http_method = method' ?good, http_url = substitute ?it url_template,
                 http_timeout = timeout' ?good, http_data = Some (substitute ?it body_template),
                 http_headers = [(''Content-Type'', type' ?good),
                   (''Content-Length'', str_int (int (length (substitute ?it body_template))))]\<rparr> []"
    by (rule webhook_templates [where it = ?it and cfg = ?good and u = url_template
          and b = body_template and http = posts and w = "[]",
          THEN conjunct2, THEN conjunct2, THEN conjunct2, THEN conjunct2, THEN conjunct2,
          THEN conjunct1, THEN mp])
       (simp add: hook_config_def ou ob nb)
  then have one: "WebHook_send posts ?good ?it [] =
     (None, [\<lparr>http_method = Some ''POST'', http_url = ''https://example.org/hook?id=A'',
              http_timeout = 60, http_data = Some ''Bakery: 3 bags, $3.99 each'',
              http_headers = [(''Content-Type'', ''text/plain''), (''Content-Length'', ''26'')]\<rparr>])"
    by (simp add: u b s hook_config_def posts_def)
  have "WebHook_send posts ?bare ?it [] =
          posts \<lparr>http_method = method' ?bare, http_url = substitute ?it url_template,
                 http_timeout = timeout' ?bare, http_data = None,
                 http_headers = [(''Content-Type'', type' ?bare)]\<rparr> []"
    by (rule webhook_templates [where it = ?it and cfg = ?bare and u = url_template
          and http = posts and w = "[]",
          THEN conjunct2, THEN conjunct2, THEN conjunct2, THEN conjunct2, THEN conjunct2,
          THEN conjunct2, THEN conjunct1, THEN mp])
       (simp add: hook_config_def ou)
  then have two: "WebHook_send posts ?bare ?it [] =
     (None, [\<lparr>http_method = Some ''POST'', http_url = ''https://example.org/hook?id=A'',
              http_timeout = 60, http_data = None,
              http_headers = [(''Content-Type'', ''text/plain'')]\<rparr>])"
    by (simp add: u hook_config_def posts_def)
  have "render ?it body_template = substitute ?it body_template"
    by (rule webhook_templates [where it = ?it and t = body_template,
          THEN conjunct2, THEN conjunct2, THEN conjunct2, THEN conjunct2,
          THEN conjunct1, THEN mp])
       (rule ob)
  then have three: "render ?it body_template = ''Bakery: 3 bags, $3.99 each''"
    by (simp only: b)
  have four: "WebHook_new posts ?bad = Inl WebHookConfigurationError"
    by (rule webhook_templates [where cfg = ?bad and u = "''https://example.org/hook''"
          and b = "''${{bogus}} bags''" and name = "''bogus''" and http = posts,
          THEN conjunct2, THEN conjunct2, THEN conjunct2, THEN conjunct2, THEN conjunct2,
          THEN conjunct2, THEN conjunct2, THEN conjunct1, THEN mp])
       (simp add: hook_config_def f ATTRS_def del: finditer.simps)
  have five: "WebHook_new posts ?good = Inr ?n"
    by (simp add: WebHook_new_def WebHook_init_def hook_config_def unknown_placeholder_def
        fu fb nu ATTRS_def del: finditer.simps)
  have "\<exists>req. send_impl ?n ?it [] = posts req []"
    by (rule webhook_templates [where cfg = ?good and http = posts and n = ?n and it = ?it
          and w = "[]",
          THEN conjunct2, THEN conjunct2, THEN conjunct2, THEN conjunct2, THEN conjunct2,
          THEN conjunct2, THEN conjunct2, THEN conjunct2, THEN mp])
       (simp add: five)
  then have six: "\<exists>req. WebHook_send posts ?good ?it [] = posts req []"
    by simp
  show ?thesis
    using one two three four five six by (intro conjI)
qed

text \<open>
  C8 as stated fails. For an item whose display name is the text
  \<^verbatim>\<open>${{items_available}}\<close>, the template \<^verbatim>\<open>${{display_name}}: ${{items_available}}\<close> stands
  for \<^verbatim>\<open>${{items_available}}: 3\<close> and is rendered as \<^verbatim>\<open>3: 3\<close>: the second replacement also
  rewrites the display name the first one put in.
\<close>

theorem webhook_resubstitutes:
  "display_name odd_name = ''${{items_available}}'' \<and>
   substitute odd_name ''${{display_name}}: ${{items_available}}'' = ''${{items_available}}: 3'' \<and>
   render odd_name ''${{display_name}}: ${{items_available}}'' = ''3: 3'' \<and>
   WebHook_send posts (hook_config ''https://example.org/hook''
       (Some ''${{display_name}}: ${{items_available}}'')) odd_name [] =
     (None, [\<lparr>http_method = Some ''POST'', http_url = ''https://example.org/hook'',
              http_timeout = 60, http_data = Some ''3: 3'',
              http_headers = [(''Content-Type'', ''text/plain''), (''Content-Length'', ''4'')]\<rparr>])"
  by (simp add: odd_name_def render_def match_here_def is_word_char_def word_chars_def
      Item_getattr_def placeholder_def bag_def str_int_def digit_char_def
      WebHook_send_def hook_config_def posts_def)

end
